theory Spec2Isabelle
  imports Complex_Main
begin

section \<open>Python strings\<close>

text \<open>
  A Python \<open>str\<close> is a sequence of Unicode code points; it is modelled as the list of its
  code points. A literal of the source is written \<open>lit ''...''\<close>.
\<close>

type_synonym pystr = "nat list"

definition lit :: "string \<Rightarrow> pystr" where
  "lit s = map of_char s"

text \<open>
  \<open>str.isspace\<close> of one character, as CPython decides it: the code points
  U+0009..U+000D, U+001C..U+0020, U+0085, U+00A0, U+1680, U+2000..U+200A, U+2028,
  U+2029, U+202F, U+205F and U+3000.
\<close>

definition isspace :: "nat \<Rightarrow> bool" where
  "isspace c =
     ((9 \<le> c \<and> c \<le> 13) \<or> (28 \<le> c \<and> c \<le> 32) \<or> c = 133 \<or> c = 160 \<or> c = 5760 \<or>
      (8192 \<le> c \<and> c \<le> 8202) \<or> c = 8232 \<or> c = 8233 \<or> c = 8239 \<or> c = 8287 \<or>
      c = 12288)"

text \<open>\<open>s.strip()\<close>: leading and trailing whitespace removed.\<close>

definition strip :: "pystr \<Rightarrow> pystr" where
  "strip s = rev (dropWhile isspace (rev (dropWhile isspace s)))"

text \<open>
  \<open>s.upper()\<close> maps every character through the full upper-case mapping of the Unicode
  database, which can give several code points for one. On ASCII it turns \<open>a..z\<close> into
  \<open>A..Z\<close> and keeps everything else. The mapping of the code points from 128 on is a
  table of the Python runtime, not of this repository: it is the parameter \<open>ucd\<close> of
  every function that upper-cases.
\<close>

definition upper_cp :: "(nat \<Rightarrow> nat list) \<Rightarrow> nat \<Rightarrow> nat list" where
  "upper_cp ucd c =
     (if c < 128 then (if 97 \<le> c \<and> c \<le> 122 then [c - 32] else [c]) else ucd c)"

definition upper :: "(nat \<Rightarrow> nat list) \<Rightarrow> pystr \<Rightarrow> pystr" where
  "upper ucd s = concat (map (upper_cp ucd) s)"

text \<open>
  A table for concrete runs: it keeps every non-ASCII code point as it is. The
  theorems below hold for every table.
\<close>

definition ucd_id :: "nat \<Rightarrow> nat list" where
  "ucd_id c = [c]"


section \<open>Field normalizers (main.py, limpiar\_*)\<close>

text \<open>
  Each function starts with \<open>if not valor: return <default>\<close>, then works on
  \<open>v = str(valor).strip().upper()\<close>. The argument is a \<open>str\<close>, so \<open>not valor\<close> is
  \<open>valor == ''\<close> and \<open>str(valor)\<close> is \<open>valor\<close>. The tuples of the source are kept in
  their order.
\<close>

definition estados_pasan :: "pystr list" where
  "estados_pasan =
     map lit [''ACTIVO'', ''10'', ''11'', ''3'', ''2'', ''1'', ''12'', ''INACTIVO'']"

definition limpiar_estado :: "(nat \<Rightarrow> nat list) \<Rightarrow> pystr \<Rightarrow> pystr" where
  "limpiar_estado ucd valor =
     (if valor = [] then lit ''ND''
      else let v = upper ucd (strip valor) in
        if v = lit ''2ACTIVO'' then lit ''ACTIVO''
        else if v \<in> set estados_pasan then v
        else lit ''ND'')"

definition condiciones_pasan :: "pystr list" where
  "condiciones_pasan =
     [lit ''HABIDO'', lit ''1'', lit ''2'', lit ''3'', lit ''4'', lit ''5'', lit ''6'',
      lit ''7'', lit ''8'', lit ''9'', lit ''10'', lit ''11'', lit ''12'']"

definition limpiar_condicion :: "(nat \<Rightarrow> nat list) \<Rightarrow> pystr \<Rightarrow> pystr" where
  "limpiar_condicion ucd valor =
     (if valor = [] then lit ''ND''
      else let v = upper ucd (strip valor) in
        if v = lit ''2HABIDO'' then lit ''HABIDO''
        else if v \<in> set condiciones_pasan then v
        else lit ''ND'')"

definition tipos_pasan :: "pystr list" where
  "tipos_pasan = map lit [''A'', ''B'', ''C'', ''D'', ''E'', ''CE'', ''-'']"

definition tipos_letra :: "pystr list" where
  "tipos_letra = map lit [''A'', ''B'', ''C'', ''D'', ''E'']"

text \<open>
  \<open>v[0]\<close> is the one-character string \<open>[v ! 0]\<close>; the source reads it only behind
  \<open>len(v) >= 1 and\<close>, and so does the model.
\<close>

definition limpiar_tipo_empresa :: "(nat \<Rightarrow> nat list) \<Rightarrow> pystr \<Rightarrow> pystr" where
  "limpiar_tipo_empresa ucd valor =
     (if valor = [] then lit ''-''
      else let v = upper ucd (strip valor) in
        if v \<in> set tipos_pasan then v
        else if length v \<ge> 1 \<and> [v ! 0] \<in> set tipos_letra then [v ! 0]
        else lit ''-'')"

definition sexos_pasan :: "pystr list" where
  "sexos_pasan = map lit [''HOMBRE'', ''MUJER'']"

definition limpiar_sexo :: "(nat \<Rightarrow> nat list) \<Rightarrow> pystr \<Rightarrow> pystr" where
  "limpiar_sexo ucd valor =
     (if valor = [] then lit ''ND''
      else let v = upper ucd (strip valor) in
        if v \<in> set sexos_pasan then v
        else lit ''ND'')"

definition tamanos_pasan :: "pystr list" where
  "tamanos_pasan = map lit [''C'', ''M'', ''G'', ''B'']"

definition limpiar_tamano :: "(nat \<Rightarrow> nat list) \<Rightarrow> pystr \<Rightarrow> pystr" where
  "limpiar_tamano ucd valor =
     (if valor = [] then lit ''C''
      else let v = upper ucd (strip valor) in
        if v \<in> set tamanos_pasan then v
        else lit ''C'')"

text \<open>
  The callers pass \<open>str(x) if x else ''\<close> for a database value \<open>x\<close> that is a string or
  NULL (\<open>None\<close>): an absent value reaches the normalizer as the empty string.
\<close>

definition str_o_vacio :: "pystr option \<Rightarrow> pystr" where
  "str_o_vacio x = (case x of None \<Rightarrow> [] | Some s \<Rightarrow> (if s = [] then [] else s))"

text \<open>The closed code set of each normalizer: the values it lets through and its default.\<close>

definition codigos_estado :: "pystr set" where
  "codigos_estado = set estados_pasan \<union> {lit ''ND''}"

definition codigos_condicion :: "pystr set" where
  "codigos_condicion = set condiciones_pasan \<union> {lit ''ND''}"

definition codigos_tipo_empresa :: "pystr set" where
  "codigos_tipo_empresa = set tipos_pasan"

definition codigos_sexo :: "pystr set" where
  "codigos_sexo = set sexos_pasan \<union> {lit ''ND''}"

definition codigos_tamano :: "pystr set" where
  "codigos_tamano = set tamanos_pasan"


section \<open>Data model\<close>

text \<open>
  A row of the extract as \<open>csv.DictReader\<close> yields it: a dictionary from column
  names to cells. Reading \<open>row[c]\<close> raises \<open>KeyError\<close> when the header has no column
  \<open>c\<close> (\<open>Ausente\<close>); the cell is \<open>None\<close> when the line is shorter than the header
  (\<open>Nulo\<close>), and \<open>None.strip()\<close> raises \<open>AttributeError\<close>; otherwise it is a string.
\<close>

datatype columna =
  Ddp_numruc | Ddp_ciiu | Ddp_tpoemp | Ddp_tamano | Ddp_ubigeo | Ddp_estado | Ddp_flag22 |
  Dds_sexo | Dds_edad | Deuda | Condicion

datatype celda = Ausente | Nulo | Texto pystr

type_synonym fila_csv = "columna \<Rightarrow> celda"

datatype excepcion = ValueError | KeyError | AttributeError | ErrorBD

text \<open>A row of \<open>TMP_DataOZ_Staging\<close>; \<open>None\<close> is SQL NULL.\<close>

record srow =
  ddp_numruc :: int
  ddp_ciiu :: "pystr option"
  ddp_tpoemp :: "pystr option"
  ddp_tamano :: "pystr option"
  ddp_ubigeo :: "pystr option"
  ddp_estado :: "pystr option"
  ddp_flag22 :: "pystr option"
  dds_sexo :: "pystr option"
  dds_edad :: "int option"
  deuda :: "real option"
  condicion :: int

text \<open>
  A row of \<open>CONTRIBUYENTE\<close>, in the column order of the insert statement. The debt is
  a Python float in the source; the model takes it as a real number (no rounding, no
  NaN).
\<close>

record crow =
  ruc :: int
  id_ciiu :: "pystr option"
  id_tipo_empresa :: pystr
  id_tamano :: pystr
  id_ubicacion :: "pystr option"
  id_estado :: pystr
  id_condicion :: pystr
  sexo :: pystr
  edad :: "int option"
  deuda_val :: real
  flag22 :: "pystr option"

text \<open>
  The tables the orchestrator writes: the staging table and the canonical table as
  lists of rows in insertion order (a \<open>SELECT\<close> returns them in that order), and the
  keys of the three catalogs that \<open>poblar_catalogos\<close> extends.
\<close>

record bd =
  staging :: "srow list"
  contribuyente :: "crow list"
  actividad_economica :: "pystr set"
  ubicacion_geografica :: "pystr set"
  tipo_empresa :: "pystr set"

text \<open>
  A pyodbc connection with autocommit off: the committed database and the view of the
  open transaction. A statement that fails leaves the transaction as it was before the
  statement.
\<close>

record conexion =
  confirmado :: bd
  actual :: bd

definition commit :: "conexion \<Rightarrow> conexion" where
  "commit c = c\<lparr>confirmado := actual c\<rparr>"

definition rollback :: "conexion \<Rightarrow> conexion" where
  "rollback c = c\<lparr>actual := confirmado c\<rparr>"

text \<open>
  What the program takes from outside the repository: the upper-case table, the
  builtins \<open>int()\<close> and \<open>float()\<close> on a string (\<open>None\<close> is \<open>ValueError\<close>), and the
  constraints of the schema created by \<open>init.sql\<close>, which is not among the sources:
  whether the staging table takes a tuple, and whether \<open>CONTRIBUYENTE\<close> takes a row
  given the database the transaction sees (keys, foreign keys into the catalogs, checks).
\<close>

record entorno =
  tabla_ucd :: "nat \<Rightarrow> nat list"
  conv_int :: "pystr \<Rightarrow> int option"
  conv_float :: "pystr \<Rightarrow> real option"
  staging_acepta :: "srow \<Rightarrow> bool"
  contribuyente_acepta :: "bd \<Rightarrow> crow \<Rightarrow> bool"

definition BATCH_SIZE :: nat where
  "BATCH_SIZE = 500"


section \<open>Step 3: cargar\_csv\_a\_staging\<close>

definition ligar :: "'e + 'a \<Rightarrow> ('a \<Rightarrow> 'e + 'b) \<Rightarrow> 'e + 'b" where
  "ligar m f = (case m of Inl e \<Rightarrow> Inl e | Inr x \<Rightarrow> f x)"

text \<open>
  \<open>conv(row[c]) if row[c].strip() else None\<close>: the condition is evaluated first, then
  the conversion of the whole cell.
\<close>

definition convertir :: "(pystr \<Rightarrow> 'a option) \<Rightarrow> fila_csv \<Rightarrow> columna \<Rightarrow> excepcion + 'a option" where
  "convertir conv row c =
     (case row c of
        Ausente \<Rightarrow> Inl KeyError
      | Nulo \<Rightarrow> Inl AttributeError
      | Texto s \<Rightarrow>
          if strip s \<noteq> [] then (case conv s of None \<Rightarrow> Inl ValueError | Some n \<Rightarrow> Inr (Some n))
          else Inr None)"

text \<open>\<open>row[c].strip() or None\<close>\<close>

definition texto_o_none :: "fila_csv \<Rightarrow> columna \<Rightarrow> excepcion + pystr option" where
  "texto_o_none row c =
     (case row c of
        Ausente \<Rightarrow> Inl KeyError
      | Nulo \<Rightarrow> Inl AttributeError
      | Texto s \<Rightarrow> if strip s \<noteq> [] then Inr (Some (strip s)) else Inr None)"

text \<open>
  The body of the \<open>try\<close> up to \<open>batch.append\<close>, in the order of evaluation of the
  source. \<open>Inr None\<close> is the \<open>continue\<close> of a row without RUC.
\<close>

definition leer_fila :: "entorno \<Rightarrow> fila_csv \<Rightarrow> excepcion + srow option" where
  "leer_fila env row =
     ligar (convertir (conv_int env) row Ddp_numruc) (\<lambda>ruc_o.
     ligar (convertir (conv_int env) row Dds_edad) (\<lambda>edad_o.
     ligar (convertir (conv_float env) row Deuda) (\<lambda>deuda_o.
     ligar (convertir (conv_int env) row Condicion) (\<lambda>condicion_o.
       case ruc_o of
         None \<Rightarrow> Inr None
       | Some r \<Rightarrow>
           ligar (texto_o_none row Ddp_ciiu) (\<lambda>ciiu.
           ligar (texto_o_none row Ddp_tpoemp) (\<lambda>tpoemp.
           ligar (texto_o_none row Ddp_tamano) (\<lambda>tamano.
           ligar (texto_o_none row Ddp_ubigeo) (\<lambda>ubigeo.
           ligar (texto_o_none row Ddp_estado) (\<lambda>estado.
           ligar (texto_o_none row Ddp_flag22) (\<lambda>flag.
           ligar (texto_o_none row Dds_sexo) (\<lambda>sx.
             Inr (Some \<lparr>ddp_numruc = r, ddp_ciiu = ciiu, ddp_tpoemp = tpoemp,
                        ddp_tamano = tamano, ddp_ubigeo = ubigeo, ddp_estado = estado,
                        ddp_flag22 = flag, dds_sexo = sx, dds_edad = edad_o,
                        deuda = Some (case deuda_o of None \<Rightarrow> 0 | Some d \<Rightarrow> d),
                        condicion = (case condicion_o of None \<Rightarrow> 0 | Some k \<Rightarrow> k)\<rparr>))))))))))))"

text \<open>\<open>cursor.executemany\<close> on the staging table: a tuple the table refuses raises.\<close>

definition executemany_staging :: "entorno \<Rightarrow> conexion \<Rightarrow> srow list \<Rightarrow> excepcion + conexion" where
  "executemany_staging env c b =
     (if list_all (staging_acepta env) b
      then Inr (c\<lparr>actual := (actual c)\<lparr>staging := staging (actual c) @ b\<rparr>\<rparr>)
      else Inl ErrorBD)"

record estado_carga =
  con_c :: conexion
  batch_c :: "srow list"
  filas_ok :: nat
  filas_error :: nat

text \<open>
  One turn of the \<open>for\<close> loop. \<open>except (ValueError, KeyError)\<close> counts the row in
  \<open>filas_error\<close>; any other exception leaves the function. The progress messages
  of the log change no state and are left out, here and in the migration.
\<close>

definition paso_carga :: "entorno \<Rightarrow> nat \<Rightarrow> estado_carga \<Rightarrow> fila_csv \<Rightarrow> excepcion + estado_carga" where
  "paso_carga env bs st row =
     (case leer_fila env row of
        Inl e \<Rightarrow>
          if e = ValueError \<or> e = KeyError then Inr (st\<lparr>filas_error := filas_error st + 1\<rparr>)
          else Inl e
      | Inr None \<Rightarrow> Inr st
      | Inr (Some t) \<Rightarrow>
          (let b = batch_c st @ [t] in
           if length b \<ge> bs then
             (case executemany_staging env (con_c st) b of
                Inl e \<Rightarrow> Inl e
              | Inr c \<Rightarrow>
                  Inr (st\<lparr>con_c := commit c, batch_c := [], filas_ok := filas_ok st + length b\<rparr>))
           else Inr (st\<lparr>batch_c := b\<rparr>)))"

fun cargar_filas :: "entorno \<Rightarrow> nat \<Rightarrow> estado_carga \<Rightarrow> fila_csv list \<Rightarrow> excepcion + estado_carga" where
  "cargar_filas env bs st [] = Inr st"
| "cargar_filas env bs st (row # rows) =
     (case paso_carga env bs st row of
        Inl e \<Rightarrow> Inl e
      | Inr st' \<Rightarrow> cargar_filas env bs st' rows)"

text \<open>
  The result of the function: the connection, the value returned (\<open>filas_ok\<close>) and the
  two numbers of its last log line (\<open>filas_ok\<close> rows OK, \<open>filas_error\<close> ignored).
\<close>

record salida_carga =
  conexion_c :: conexion
  retorno_c :: nat
  log_c :: "nat \<times> nat"

definition cargar_csv_a_staging :: "entorno \<Rightarrow> nat \<Rightarrow> conexion \<Rightarrow> fila_csv list \<Rightarrow> excepcion + salida_carga" where
  "cargar_csv_a_staging env bs conn csv =
     (let c0 = commit (conn\<lparr>actual := (actual conn)\<lparr>staging := []\<rparr>\<rparr>) in
      case cargar_filas env bs \<lparr>con_c = c0, batch_c = [], filas_ok = 0, filas_error = 0\<rparr> csv of
        Inl e \<Rightarrow> Inl e
      | Inr st \<Rightarrow>
          if batch_c st \<noteq> [] then
            (case executemany_staging env (con_c st) (batch_c st) of
               Inl e \<Rightarrow> Inl e
             | Inr c \<Rightarrow>
                 Inr \<lparr>conexion_c = commit c, retorno_c = filas_ok st + length (batch_c st),
                      log_c = (filas_ok st + length (batch_c st), filas_error st)\<rparr>)
          else Inr \<lparr>conexion_c = con_c st, retorno_c = filas_ok st,
                    log_c = (filas_ok st, filas_error st)\<rparr>)"


section \<open>Step 4: poblar\_catalogos\<close>

text \<open>
  The two \<open>INSERT ... SELECT DISTINCT ... WHERE x IS NOT NULL AND x NOT IN (catalog)\<close>
  add the staging values that the catalog lacks; the loop over the distinct company
  types adds the normalized type when no row has it. The catalogs are taken to accept
  these rows.
\<close>

definition valores :: "(srow \<Rightarrow> pystr option) \<Rightarrow> srow list \<Rightarrow> pystr list" where
  "valores col st = concat (map (\<lambda>r. case col r of None \<Rightarrow> [] | Some v \<Rightarrow> [v]) st)"

definition poblar_catalogos :: "entorno \<Rightarrow> conexion \<Rightarrow> conexion" where
  "poblar_catalogos env conn =
     (let c1 = commit (conn\<lparr>actual := (actual conn)\<lparr>actividad_economica :=
                 actividad_economica (actual conn) \<union> set (valores ddp_ciiu (staging (actual conn)))\<rparr>\<rparr>);
          c2 = commit (c1\<lparr>actual := (actual c1)\<lparr>ubicacion_geografica :=
                 ubicacion_geografica (actual c1) \<union> set (valores ddp_ubigeo (staging (actual c1)))\<rparr>\<rparr>);
          tipos_csv = remdups (valores ddp_tpoemp (staging (actual c2)))
      in commit (c2\<lparr>actual := (actual c2)\<lparr>tipo_empresa :=
           fold (\<lambda>tipo cat. insert (limpiar_tipo_empresa (tabla_ucd env) tipo) cat) tipos_csv
             (tipo_empresa (actual c2))\<rparr>\<rparr>))"


section \<open>Step 5: migrar\_staging\_a\_contribuyente\<close>

text \<open>The \<open>WHERE\<close> clause of the query over the staging table.\<close>

definition filtro :: "srow \<Rightarrow> bool" where
  "filtro r =
     (ddp_numruc r \<ge> 10000 \<and> ddp_ciiu r \<noteq> None \<and> ddp_tpoemp r \<noteq> None \<and> ddp_tamano r \<noteq> None \<and>
      ddp_ubigeo r \<noteq> None \<and> ddp_estado r \<noteq> None \<and> ddp_flag22 r \<noteq> None)"

text \<open>The tuple appended to the batch for a staging row.\<close>

definition limpiar_fila :: "entorno \<Rightarrow> srow \<Rightarrow> crow" where
  "limpiar_fila env row =
     (let estado_limpio = limpiar_estado (tabla_ucd env) (str_o_vacio (ddp_estado row));
          condicion_limpia = limpiar_condicion (tabla_ucd env) (str_o_vacio (ddp_flag22 row));
          tipo_limpio = limpiar_tipo_empresa (tabla_ucd env) (str_o_vacio (ddp_tpoemp row));
          tamano_limpio = limpiar_tamano (tabla_ucd env) (str_o_vacio (ddp_tamano row));
          sexo_limpio = limpiar_sexo (tabla_ucd env) (str_o_vacio (dds_sexo row));
          d = (case deuda row of None \<Rightarrow> 0 | Some x \<Rightarrow> x);
          d' = (if d < 0 then 0 else d)
      in \<lparr>ruc = ddp_numruc row, id_ciiu = ddp_ciiu row, id_tipo_empresa = tipo_limpio,
          id_tamano = tamano_limpio, id_ubicacion = ddp_ubigeo row, id_estado = estado_limpio,
          id_condicion = condicion_limpia, sexo = sexo_limpio, edad = dds_edad row,
          deuda_val = d', flag22 = ddp_flag22 row\<rparr>)"

text \<open>One \<open>INSERT INTO CONTRIBUYENTE\<close> inside the open transaction.\<close>

definition insertar :: "conexion \<Rightarrow> crow \<Rightarrow> conexion" where
  "insertar c r = c\<lparr>actual := (actual c)\<lparr>contribuyente := contribuyente (actual c) @ [r]\<rparr>\<rparr>"

text \<open>
  \<open>cursor.executemany(sql_insert, batch)\<close> runs the insert for one tuple after the
  other and raises at the first that the store refuses; the tuples before it stay in
  the open transaction. The result says whether it returned (\<open>True\<close>) or raised.
\<close>

fun executemany :: "entorno \<Rightarrow> conexion \<Rightarrow> crow list \<Rightarrow> bool \<times> conexion" where
  "executemany env c [] = (True, c)"
| "executemany env c (r # rs) =
     (if contribuyente_acepta env (actual c) r then executemany env (insertar c r) rs
      else (False, c))"

text \<open>The inner loop of the \<open>except\<close> branch: one insert and one commit per row.\<close>

fun uno_a_uno :: "entorno \<Rightarrow> conexion \<Rightarrow> crow list \<Rightarrow> nat \<Rightarrow> nat \<Rightarrow> conexion \<times> nat \<times> nat" where
  "uno_a_uno env c [] ins des = (c, ins, des)"
| "uno_a_uno env c (single_row # rs) ins des =
     (if contribuyente_acepta env (actual c) single_row
      then uno_a_uno env (commit (insertar c single_row)) rs (ins + 1) des
      else uno_a_uno env (rollback c) rs ins (des + 1))"

text \<open>The \<open>try\<close> around a batch, the same in the loop and for the last batch.\<close>

definition volcar_lote :: "entorno \<Rightarrow> conexion \<Rightarrow> crow list \<Rightarrow> nat \<Rightarrow> nat \<Rightarrow> conexion \<times> nat \<times> nat" where
  "volcar_lote env c b ins des =
     (case executemany env c b of
        (True, c') \<Rightarrow> (commit c', ins + length b, des)
      | (False, c') \<Rightarrow> uno_a_uno env (rollback c') b ins des)"

record estado_migracion =
  con_m :: conexion
  batch_m :: "crow list"
  insertados :: nat
  descartados :: nat
  ruc_set :: "int set"

fun migrar_filas :: "entorno \<Rightarrow> nat \<Rightarrow> estado_migracion \<Rightarrow> srow list \<Rightarrow> estado_migracion" where
  "migrar_filas env bs st [] = st"
| "migrar_filas env bs st (row # rows) =
     (let t = limpiar_fila env row in
      if ddp_numruc row \<in> ruc_set st
      then migrar_filas env bs (st\<lparr>descartados := descartados st + 1\<rparr>) rows
      else
        (let b = batch_m st @ [t]; rs = insert (ddp_numruc row) (ruc_set st) in
         if length b \<ge> bs then
           (case volcar_lote env (con_m st) b (insertados st) (descartados st) of
              (c, ins, des) \<Rightarrow>
                migrar_filas env bs
                  \<lparr>con_m = c, batch_m = [], insertados = ins, descartados = des, ruc_set = rs\<rparr> rows)
         else migrar_filas env bs (st\<lparr>batch_m := b, ruc_set := rs\<rparr>) rows))"

text \<open>The loop over the rows followed by the last batch (\<open>if batch:\<close>).\<close>

definition migrar_lotes :: "entorno \<Rightarrow> nat \<Rightarrow> conexion \<Rightarrow> srow list \<Rightarrow> conexion \<times> nat \<times> nat" where
  "migrar_lotes env bs c rows =
     (let st = migrar_filas env bs
                 \<lparr>con_m = c, batch_m = [], insertados = 0, descartados = 0, ruc_set = {}\<rparr> rows
      in if batch_m st \<noteq> [] then volcar_lote env (con_m st) (batch_m st) (insertados st) (descartados st)
         else (con_m st, insertados st, descartados st))"

text \<open>The record of the original script, inserted when no row has its RUC.\<close>

definition registro_especial :: crow where
  "registro_especial =
     \<lparr>ruc = 611077, id_ciiu = Some (lit ''75113''), id_tipo_empresa = lit ''A'',
      id_tamano = lit ''C'', id_ubicacion = Some (lit ''CHIMBOTE''), id_estado = lit ''ACTIVO'',
      id_condicion = lit ''HABIDO'', sexo = lit ''ND'', edad = Some 0, deuda_val = 0,
      flag22 = Some (lit ''HABIDO'')\<rparr>"

definition agregar_especial :: "entorno \<Rightarrow> conexion \<Rightarrow> conexion" where
  "agregar_especial env c =
     (if list_ex (\<lambda>r. ruc r = 611077) (contribuyente (actual c)) then commit c
      else if contribuyente_acepta env (actual c) registro_especial
           then commit (insertar c registro_especial)
           else c)"

text \<open>
  The result of the function: the connection, the value returned (\<open>insertados\<close>) and the
  two numbers of the log line written when the batches are done (\<open>insertados\<close> records
  OK, \<open>descartados\<close> discarded).
\<close>

record salida_migracion =
  conexion_m :: conexion
  retorno_m :: nat
  log_m :: "nat \<times> nat"

definition migrar_staging_a_contribuyente :: "entorno \<Rightarrow> nat \<Rightarrow> conexion \<Rightarrow> salida_migracion" where
  "migrar_staging_a_contribuyente env bs conn =
     (let c0 = commit (conn\<lparr>actual := (actual conn)\<lparr>contribuyente := []\<rparr>\<rparr>);
          rows = filter filtro (staging (actual c0))
      in case migrar_lotes env bs c0 rows of
           (c, ins, des) \<Rightarrow>
             \<lparr>conexion_m = agregar_especial env c, retorno_m = ins, log_m = (ins, des)\<rparr>)"


section \<open>The orchestrator: check\_table\_has\_data and main\<close>

text \<open>
  \<open>check_table_has_data("CONTRIBUYENTE", min_rows)\<close> opens a connection of its own, so
  it counts the committed rows. \<open>consulta_ok\<close> says whether connecting and counting
  went through; the \<open>except\<close> branch answers \<open>False\<close>.
\<close>

definition check_table_has_data :: "bool \<Rightarrow> bd \<Rightarrow> nat \<Rightarrow> bool" where
  "check_table_has_data consulta_ok db min_rows =
     (if consulta_ok then length (contribuyente db) \<ge> min_rows else False)"

datatype paso = CargarCSV | PoblarCatalogos | Migrar | EjecutarSpark | MostrarResumen

record salida_main =
  bd_final :: bd
  pasos :: "paso list"

text \<open>
  \<open>main\<close> from step 3 on, on the database that steps 1 and 2 leave (\<open>init.sql\<close> is taken
  to keep the rows of existing tables, as the check of step 3 presupposes). The Spark
  job and the summary only read the tables modelled here (the job writes
  \<open>RESULTADO_SPARK\<close>); they appear in the list of the stages invoked. An exception of
  the staging load leaves \<open>main\<close>.
\<close>

definition main :: "entorno \<Rightarrow> bool \<Rightarrow> fila_csv list \<Rightarrow> bd \<Rightarrow> excepcion + salida_main" where
  "main env consulta_ok csv db =
     (let conn = \<lparr>confirmado = db, actual = db\<rparr> in
      if \<not> check_table_has_data consulta_ok db 100 then
        (case cargar_csv_a_staging env BATCH_SIZE conn csv of
           Inl e \<Rightarrow> Inl e
         | Inr sc \<Rightarrow>
             (let c2 = poblar_catalogos env (conexion_c sc);
                  sm = migrar_staging_a_contribuyente env BATCH_SIZE c2
              in Inr \<lparr>bd_final = confirmado (conexion_m sm),
                      pasos = [CargarCSV, PoblarCatalogos, Migrar, EjecutarSpark, MostrarResumen]\<rparr>))
      else Inr \<lparr>bd_final = confirmado conn, pasos = [EjecutarSpark, MostrarResumen]\<rparr>)"


section \<open>Notions used in the properties\<close>

text \<open>A connection with no open change: the transaction sees the committed database.\<close>

definition limpia :: "conexion \<Rightarrow> bool" where
  "limpia c = (confirmado c = actual c)"

text \<open>The clean connection that differs from \<open>c\<close> in the rows of \<open>CONTRIBUYENTE\<close> only.\<close>

definition con_tabla :: "conexion \<Rightarrow> crow list \<Rightarrow> conexion" where
  "con_tabla c t =
     \<lparr>confirmado = (actual c)\<lparr>contribuyente := t\<rparr>, actual = (actual c)\<lparr>contribuyente := t\<rparr>\<rparr>"

text \<open>
  The de-duplication as the specification words it: the first row with a given id is
  kept, every later row with the same id is dropped.
\<close>

fun primeras :: "srow list \<Rightarrow> srow list" where
  "primeras [] = []"
| "primeras (r # rs) = r # primeras (filter (\<lambda>x. ddp_numruc x \<noteq> ddp_numruc r) rs)"

text \<open>The rows that the loop keeps when the ids of \<open>S\<close> have been seen already.\<close>

fun primeras_desde :: "int set \<Rightarrow> srow list \<Rightarrow> srow list" where
  "primeras_desde S [] = []"
| "primeras_desde S (r # rs) =
     (if ddp_numruc r \<in> S then primeras_desde S rs
      else r # primeras_desde (insert (ddp_numruc r) S) rs)"

text \<open>What the batch still held in memory would give, inserted row by row.\<close>

definition pendiente :: "entorno \<Rightarrow> estado_migracion \<Rightarrow> conexion \<times> nat \<times> nat" where
  "pendiente env st = uno_a_uno env (con_m st) (batch_m st) (insertados st) (descartados st)"


text \<open>The connection after \<open>DELETE FROM CONTRIBUYENTE\<close> and its commit.\<close>

definition vaciada :: "conexion \<Rightarrow> conexion" where
  "vaciada conn = commit (conn\<lparr>actual := (actual conn)\<lparr>contribuyente := []\<rparr>\<rparr>)"


text \<open>
  The staging records that the rows of an extract give, in order, and whether a row is
  counted in \<open>filas_error\<close>.
\<close>

definition aceptadas :: "entorno \<Rightarrow> fila_csv list \<Rightarrow> srow list" where
  "aceptadas env csv =
     concat (map (\<lambda>row. case leer_fila env row of Inr (Some t) \<Rightarrow> [t] | _ \<Rightarrow> []) csv)"

definition contada :: "entorno \<Rightarrow> fila_csv \<Rightarrow> bool" where
  "contada env row = (leer_fila env row = Inl ValueError \<or> leer_fila env row = Inl KeyError)"

definition ignoradas :: "entorno \<Rightarrow> fila_csv list \<Rightarrow> nat" where
  "ignoradas env csv = length (filter (contada env) csv)"


text \<open>
  The state of the staging loop before the first row, and what the loop keeps true from
  a state \<open>st\<close> to a later state \<open>st'\<close> over the rows \<open>csv\<close>: nothing is left uncommitted, only
  the staging table changes, the table and the batch together hold the accepted records
  in order, and the two counters count them and the ignored rows.
\<close>

definition inicio_carga :: "conexion \<Rightarrow> estado_carga" where
  "inicio_carga conn =
     \<lparr>con_c = commit (conn\<lparr>actual := (actual conn)\<lparr>staging := []\<rparr>\<rparr>), batch_c = [],
      filas_ok = 0, filas_error = 0\<rparr>"

definition marco :: "estado_carga \<Rightarrow> estado_carga \<Rightarrow> fila_csv list \<Rightarrow> entorno \<Rightarrow> bool" where
  "marco st st' csv env =
     (limpia (con_c st') \<and>
      (actual (con_c st'))\<lparr>staging := []\<rparr> = (actual (con_c st))\<lparr>staging := []\<rparr> \<and>
      staging (actual (con_c st')) @ batch_c st' =
        staging (actual (con_c st)) @ batch_c st @ aceptadas env csv \<and>
      filas_ok st' + length (batch_c st') =
        filas_ok st + length (batch_c st) + length (aceptadas env csv) \<and>
      filas_error st' = filas_error st + ignoradas env csv)"


text \<open>What \<open>poblar_catalogos\<close> makes of the database that the transaction sees.\<close>

definition poblar_bd :: "entorno \<Rightarrow> bd \<Rightarrow> bd" where
  "poblar_bd env b =
     b\<lparr>actividad_economica := actividad_economica b \<union> set (valores ddp_ciiu (staging b)),
       ubicacion_geografica := ubicacion_geografica b \<union> set (valores ddp_ubigeo (staging b)),
       tipo_empresa := tipo_empresa b \<union>
         limpiar_tipo_empresa (tabla_ucd env) ` set (valores ddp_tpoemp (staging b))\<rparr>"

text \<open>
  The database that a run of the three load stages leaves, when none of them raises:
  the accepted records in the staging table, the catalogs extended from them, and the
  canonical table rebuilt.
\<close>

definition carga_completa :: "entorno \<Rightarrow> fila_csv list \<Rightarrow> bd \<Rightarrow> bd" where
  "carga_completa env csv db =
     actual (conexion_m (migrar_staging_a_contribuyente env BATCH_SIZE
       \<lparr>confirmado = poblar_bd env (db\<lparr>staging := aceptadas env csv\<rparr>),
        actual = poblar_bd env (db\<lparr>staging := aceptadas env csv\<rparr>)\<rparr>))"

text \<open>A table of a hundred rows, with the RUCs 0 to 99.\<close>

definition cien_filas :: "crow list" where
  "cien_filas = map (\<lambda>i. registro_especial\<lparr>ruc := int i\<rparr>) [0..<100]"


section \<open>Concrete inputs\<close>

text \<open>
  An environment for concrete runs. Its \<open>int()\<close> reads the unsigned ASCII decimal
  numerals (Python reads these the same way, and more: signs, underscores, other
  digits); its store checks the foreign key of the activity code and the uniqueness of
  the RUC.
\<close>

definition int_decimal :: "pystr \<Rightarrow> int option" where
  "int_decimal s =
     (let t = strip s in
      if t \<noteq> [] \<and> list_all (\<lambda>c. 48 \<le> c \<and> c \<le> 57) t
      then Some (int (foldl (\<lambda>a c. 10 * a + (c - 48)) 0 t))
      else None)"

definition env_demo :: entorno where
  "env_demo =
     \<lparr>tabla_ucd = ucd_id,
      conv_int = int_decimal,
      conv_float = (\<lambda>s. map_option real_of_int (int_decimal s)),
      staging_acepta = (\<lambda>t. True),
      contribuyente_acepta = (\<lambda>b r.
         (case id_ciiu r of None \<Rightarrow> False | Some k \<Rightarrow> k \<in> actividad_economica b) \<and>
         \<not> list_ex (\<lambda>x. ruc x = ruc r) (contribuyente b))\<rparr>"

definition fila_st :: "int \<Rightarrow> string \<Rightarrow> string \<Rightarrow> srow" where
  "fila_st n ciiu tipo =
     \<lparr>ddp_numruc = n, ddp_ciiu = Some (lit ciiu), ddp_tpoemp = Some (lit tipo),
      ddp_tamano = Some (lit ''M''), ddp_ubigeo = Some (lit ''CHIMBOTE''),
      ddp_estado = Some (lit ''2ACTIVO''), ddp_flag22 = Some (lit ''HABIDO''),
      dds_sexo = None, dds_edad = None, deuda = Some 0, condicion = 0\<rparr>"

definition bd_demo :: "srow list \<Rightarrow> bd" where
  "bd_demo st =
     \<lparr>staging = st, contribuyente = [],
      actividad_economica = {lit ''5211'', lit ''75113''},
      ubicacion_geografica = {lit ''CHIMBOTE''},
      tipo_empresa = {lit ''A''}\<rparr>"

definition con_demo :: "srow list \<Rightarrow> conexion" where
  "con_demo st = \<lparr>confirmado = bd_demo st, actual = bd_demo st\<rparr>"

text \<open>A database whose canonical table holds a hundred rows.\<close>

definition bd_cien :: bd where
  "bd_cien = (bd_demo [])\<lparr>contribuyente := cien_filas\<rparr>"


text \<open>
  A row of an extract with the given RUC and age cells; the sex, debt and condition cells
  are empty and the other text cells are filled.
\<close>

definition fila_csv_demo :: "string \<Rightarrow> string \<Rightarrow> fila_csv" where
  "fila_csv_demo ruc_txt edad_txt =
     (\<lambda>c. case c of
        Ddp_numruc \<Rightarrow> Texto (lit ruc_txt)
      | Ddp_ciiu \<Rightarrow> Texto (lit ''5211'')
      | Ddp_tpoemp \<Rightarrow> Texto (lit ''B9'')
      | Ddp_tamano \<Rightarrow> Texto (lit ''M'')
      | Ddp_ubigeo \<Rightarrow> Texto (lit ''CHIMBOTE'')
      | Ddp_estado \<Rightarrow> Texto (lit ''2ACTIVO'')
      | Ddp_flag22 \<Rightarrow> Texto (lit ''HABIDO'')
      | Dds_sexo \<Rightarrow> Texto []
      | Dds_edad \<Rightarrow> Texto (lit edad_txt)
      | Deuda \<Rightarrow> Texto []
      | Condicion \<Rightarrow> Texto [])"

section \<open>Properties of the normalizers\<close>

lemma tipos_letra_sub: "x \<in> set tipos_letra \<Longrightarrow> x \<in> set tipos_pasan"
  by (auto simp: tipos_letra_def tipos_pasan_def)

lemma strip_Nil: "strip [] = []"
  by (simp add: strip_def)

lemma upper_Nil: "upper ucd [] = []"
  by (simp add: upper_def)

lemma activo_pasa: "lit ''ACTIVO'' \<in> set estados_pasan"
  by (simp add: estados_pasan_def)

lemma habido_pasa: "lit ''HABIDO'' \<in> set condiciones_pasan"
  by (simp add: condiciones_pasan_def)

lemma guion_pasa: "lit ''-'' \<in> set tipos_pasan"
  by (simp add: tipos_pasan_def)

lemma c_pasa: "lit ''C'' \<in> set tamanos_pasan"
  by (simp add: tamanos_pasan_def)

lemma estado_cerrado: "limpiar_estado ucd s \<in> codigos_estado"
  by (simp add: limpiar_estado_def codigos_estado_def Let_def activo_pasa)

lemma condicion_cerrado: "limpiar_condicion ucd s \<in> codigos_condicion"
  by (simp add: limpiar_condicion_def codigos_condicion_def Let_def habido_pasa)

lemma tipo_cerrado: "limpiar_tipo_empresa ucd s \<in> codigos_tipo_empresa"
  by (simp add: limpiar_tipo_empresa_def codigos_tipo_empresa_def Let_def guion_pasa
      tipos_letra_sub)

lemma sexo_cerrado: "limpiar_sexo ucd s \<in> codigos_sexo"
  by (simp add: limpiar_sexo_def codigos_sexo_def Let_def)

lemma tamano_cerrado: "limpiar_tamano ucd s \<in> codigos_tamano"
  by (simp add: limpiar_tamano_def codigos_tamano_def Let_def c_pasa)

lemma vacio_por_defecto:
  "limpiar_estado ucd [] = lit ''ND''"
  "limpiar_condicion ucd [] = lit ''ND''"
  "limpiar_tipo_empresa ucd [] = lit ''-''"
  "limpiar_sexo ucd [] = lit ''ND''"
  "limpiar_tamano ucd [] = lit ''C''"
  by (simp_all add: limpiar_estado_def limpiar_condicion_def limpiar_tipo_empresa_def
      limpiar_sexo_def limpiar_tamano_def)

text \<open>
  C4. Every normalizer is total: the five functions are defined on every string and
  every upper-case table, their only partial operation (\<open>v[0]\<close>) is read behind its
  length check, and the result is always in the closed code set of the normalizer.
  The empty string, and the absent database value that the callers turn into the empty
  string, give the default code: \<open>ND\<close>, \<open>ND\<close>, \<open>-\<close>, \<open>ND\<close> and \<open>C\<close>.
\<close>

theorem normalizadores_totales:
  "limpiar_estado ucd s \<in> codigos_estado \<and>
   limpiar_condicion ucd s \<in> codigos_condicion \<and>
   limpiar_tipo_empresa ucd s \<in> codigos_tipo_empresa \<and>
   limpiar_sexo ucd s \<in> codigos_sexo \<and>
   limpiar_tamano ucd s \<in> codigos_tamano \<and>
   limpiar_estado ucd [] = lit ''ND'' \<and>
   limpiar_condicion ucd [] = lit ''ND'' \<and>
   limpiar_tipo_empresa ucd [] = lit ''-'' \<and>
   limpiar_sexo ucd [] = lit ''ND'' \<and>
   limpiar_tamano ucd [] = lit ''C'' \<and>
   limpiar_estado ucd (str_o_vacio None) = lit ''ND'' \<and>
   limpiar_condicion ucd (str_o_vacio None) = lit ''ND'' \<and>
   limpiar_tipo_empresa ucd (str_o_vacio None) = lit ''-'' \<and>
   limpiar_sexo ucd (str_o_vacio None) = lit ''ND'' \<and>
   limpiar_tamano ucd (str_o_vacio None) = lit ''C''"
  by (simp add: estado_cerrado condicion_cerrado tipo_cerrado sexo_cerrado tamano_cerrado
      vacio_por_defecto str_o_vacio_def)

lemma tipos_letra_hd: "([c] \<in> set tipos_letra) = (c \<in> set (lit ''ABCDE''))"
  by (auto simp: tipos_letra_def lit_def)

lemma nth0_hd: "Suc 0 \<le> length v \<Longrightarrow> v ! 0 = hd v"
  by (cases v) simp_all

lemma tipo_empresa_sobre_v:
  "limpiar_tipo_empresa ucd s =
     (let v = upper ucd (strip s) in
      if v \<in> set (map lit [''A'', ''B'', ''C'', ''D'', ''E'', ''CE'', ''-'']) then v
      else if length v \<ge> 1 \<and> hd v \<in> set (lit ''ABCDE'') then [hd v]
      else lit ''-'')"
proof (cases "s = []")
  case True
  then show ?thesis
    by (simp add: limpiar_tipo_empresa_def strip_Nil upper_Nil lit_def)
next
  case False
  then show ?thesis
    by (auto simp: limpiar_tipo_empresa_def Let_def tipos_pasan_def tipos_letra_hd nth0_hd)
qed

lemma tipo_empresa_ejemplos:
  "limpiar_tipo_empresa ucd (lit ''B9'') = lit ''B''"
  "limpiar_tipo_empresa ucd (lit ''ZZ'') = lit ''-''"
  "limpiar_tipo_empresa ucd (lit '' ce '') = lit ''CE''"
  "limpiar_tipo_empresa ucd (lit ''a7'') = lit ''A''"
  by (simp_all add: limpiar_tipo_empresa_def lit_def tipos_pasan_def tipos_letra_def upper_def
      upper_cp_def strip_def isspace_def)

text \<open>
  C7. The company-type normalizer, on the trimmed and upper-cased input \<open>v\<close>: the values
  \<open>A\<close>, \<open>B\<close>, \<open>C\<close>, \<open>D\<close>, \<open>E\<close>, \<open>CE\<close> and \<open>-\<close> pass through; otherwise, when the first
  character of \<open>v\<close> is one of \<open>A..E\<close>, the result is that character; otherwise it is
  \<open>-\<close>. The empty input needs no case of its own. \<open>B9\<close> gives \<open>B\<close> and \<open>ZZ\<close> gives \<open>-\<close>.
\<close>

theorem limpiar_tipo_empresa_reglas:
  "limpiar_tipo_empresa ucd s =
     (let v = upper ucd (strip s) in
      if v \<in> set (map lit [''A'', ''B'', ''C'', ''D'', ''E'', ''CE'', ''-'']) then v
      else if length v \<ge> 1 \<and> hd v \<in> set (lit ''ABCDE'') then [hd v]
      else lit ''-'') \<and>
   limpiar_tipo_empresa ucd (lit ''B9'') = lit ''B'' \<and>
   limpiar_tipo_empresa ucd (lit ''ZZ'') = lit ''-'' \<and>
   limpiar_tipo_empresa ucd (lit '' ce '') = lit ''CE'' \<and>
   limpiar_tipo_empresa ucd (lit ''a7'') = lit ''A''"
  using tipo_empresa_sobre_v [of ucd s] by (simp only: tipo_empresa_ejemplos simp_thms)

lemma estado_sobre_v:
  "limpiar_estado ucd s =
     (let v = upper ucd (strip s) in
      if v = lit ''2ACTIVO'' then lit ''ACTIVO''
      else if v \<in> set (map lit [''ACTIVO'', ''INACTIVO'', ''1'', ''2'', ''3'', ''10'', ''11'',
                                ''12'']) then v
      else lit ''ND'')"
proof (cases "s = []")
  case True
  then show ?thesis
    by (simp add: limpiar_estado_def strip_Nil upper_Nil lit_def)
next
  case False
  then show ?thesis
    by (auto simp: limpiar_estado_def Let_def estados_pasan_def)
qed

lemma estado_ejemplos:
  "limpiar_estado ucd (lit ''2ACTIVO'') = lit ''ACTIVO''"
  "limpiar_estado ucd (lit '' 2activo  '') = lit ''ACTIVO''"
  "limpiar_estado ucd (lit ''inactivo'') = lit ''INACTIVO''"
  "limpiar_estado ucd (lit ''12'') = lit ''12''"
  "limpiar_estado ucd (lit ''4'') = lit ''ND''"
  "limpiar_estado ucd (lit ''   '') = lit ''ND''"
  by (simp_all add: limpiar_estado_def lit_def estados_pasan_def upper_def upper_cp_def
      strip_def isspace_def)

text \<open>
  C8. The tax-status normalizer, on the trimmed and upper-cased input \<open>v\<close>: \<open>2ACTIVO\<close>
  gives \<open>ACTIVO\<close>; \<open>ACTIVO\<close>, \<open>INACTIVO\<close> and the codes 1, 2, 3, 10, 11, 12 pass
  through; every other input, the empty one included, gives \<open>ND\<close>.
\<close>

theorem limpiar_estado_reglas:
  "limpiar_estado ucd s =
     (let v = upper ucd (strip s) in
      if v = lit ''2ACTIVO'' then lit ''ACTIVO''
      else if v \<in> set (map lit [''ACTIVO'', ''INACTIVO'', ''1'', ''2'', ''3'', ''10'', ''11'',
                                ''12'']) then v
      else lit ''ND'') \<and>
   limpiar_estado ucd (lit ''2ACTIVO'') = lit ''ACTIVO'' \<and>
   limpiar_estado ucd (lit '' 2activo  '') = lit ''ACTIVO'' \<and>
   limpiar_estado ucd (lit ''inactivo'') = lit ''INACTIVO'' \<and>
   limpiar_estado ucd (lit ''12'') = lit ''12'' \<and>
   limpiar_estado ucd (lit ''4'') = lit ''ND'' \<and>
   limpiar_estado ucd (lit ''   '') = lit ''ND'' \<and>
   limpiar_estado ucd [] = lit ''ND''"
  using estado_sobre_v [of ucd s]
  by (simp only: estado_ejemplos vacio_por_defecto simp_thms)


section \<open>Properties of the migration\<close>

lemma limpia_commit: "limpia (commit c)"
  by (simp add: limpia_def commit_def)

lemma limpia_rollback: "limpia c \<Longrightarrow> rollback c = c"
  by (simp add: limpia_def rollback_def)

lemma commit_limpia: "limpia c \<Longrightarrow> commit c = c"
  by (simp add: limpia_def commit_def)

lemma actual_commit: "actual (commit c) = actual c"
  by (simp add: commit_def)

lemma commit_insertar_commit: "commit (insertar (commit c) r) = commit (insertar c r)"
  by (simp add: commit_def insertar_def)

lemma confirmado_executemany: "confirmado (snd (executemany env c b)) = confirmado c"
  by (induction b arbitrary: c) (simp_all add: insertar_def)

lemma executemany_ok:
  "executemany env c b = (True, c') \<Longrightarrow>
   uno_a_uno env (commit c) b ins des = (commit c', ins + length b, des)"
proof (induction b arbitrary: c ins)
  case Nil
  then show ?case by simp
next
  case (Cons r rs)
  then show ?case
    by (auto simp: actual_commit commit_insertar_commit split: if_splits)
qed

lemma rollback_executemany:
  assumes "limpia c"
  shows "rollback (snd (executemany env c b)) = c"
proof -
  have "confirmado (snd (executemany env c b)) = confirmado c"
    by (rule confirmado_executemany)
  with assms show ?thesis
    by (simp add: rollback_def limpia_def)
qed

lemma volcar_uno_a_uno:
  assumes "limpia c"
  shows "volcar_lote env c b ins des = uno_a_uno env c b ins des"
proof (cases "executemany env c b")
  case (Pair ok c')
  show ?thesis
  proof (cases ok)
    case True
    with Pair have "uno_a_uno env (commit c) b ins des = (commit c', ins + length b, des)"
      by (simp add: executemany_ok)
    with Pair True assms show ?thesis
      by (simp add: volcar_lote_def commit_limpia)
  next
    case False
    have "rollback (snd (executemany env c b)) = c"
      using assms by (rule rollback_executemany)
    with Pair False show ?thesis
      by (simp add: volcar_lote_def)
  qed
qed

lemma uno_a_uno_append:
  "uno_a_uno env c (xs @ ys) ins des =
     (case uno_a_uno env c xs ins des of (c', i, d) \<Rightarrow> uno_a_uno env c' ys i d)"
  by (induction xs arbitrary: c ins des) simp_all

lemma uno_a_uno_des:
  "uno_a_uno env c b ins (des + k) =
     (case uno_a_uno env c b ins des of (c', i, d) \<Rightarrow> (c', i, d + k))"
proof (induction b arbitrary: c ins des)
  case Nil
  then show ?case by simp
next
  case (Cons r rs)
  have "uno_a_uno env (rollback c) rs ins (Suc des + k) =
          (case uno_a_uno env (rollback c) rs ins (Suc des) of (c', i, d) \<Rightarrow> (c', i, d + k))"
    by (rule Cons.IH)
  then show ?case
    by (simp add: Cons.IH)
qed

lemma uno_a_uno_limpia:
  "limpia c \<Longrightarrow> limpia (fst (uno_a_uno env c b ins des))"
  by (induction b arbitrary: c ins des) (simp_all add: limpia_commit limpia_rollback)

lemma length_primeras_desde: "length (primeras_desde S rows) \<le> length rows"
  by (induction rows arbitrary: S) (simp_all add: le_SucI)

lemma migrar_filas_limpia:
  "limpia (con_m st) \<Longrightarrow> limpia (con_m (migrar_filas env bs st rows))"
proof (induction rows arbitrary: st)
  case Nil
  then show ?case by simp
next
  case (Cons row rows)
  show ?case
  proof (cases "ddp_numruc row \<in> ruc_set st")
    case True
    with Cons show ?thesis by simp
  next
    case False
    let ?b = "batch_m st @ [limpiar_fila env row]"
    show ?thesis
    proof (cases "length ?b \<ge> bs")
      case True
      obtain c i d where v: "volcar_lote env (con_m st) ?b (insertados st) (descartados st) = (c, i, d)"
        by (cases "volcar_lote env (con_m st) ?b (insertados st) (descartados st)")
      have "limpia (fst (uno_a_uno env (con_m st) ?b (insertados st) (descartados st)))"
        using Cons.prems by (rule uno_a_uno_limpia)
      with v Cons.prems have "limpia c" by (simp add: volcar_uno_a_uno)
      with v False True show ?thesis
        by (simp add: Let_def Cons.IH)
    next
      case False
      with \<open>ddp_numruc row \<notin> ruc_set st\<close> Cons show ?thesis by (simp add: Let_def)
    qed
  qed
qed

lemma migrar_filas_refina:
  "limpia (con_m st) \<Longrightarrow>
   pendiente env (migrar_filas env bs st rows) =
     uno_a_uno env (con_m st)
       (batch_m st @ map (limpiar_fila env) (primeras_desde (ruc_set st) rows))
       (insertados st)
       (descartados st + (length rows - length (primeras_desde (ruc_set st) rows)))"
proof (induction rows arbitrary: st)
  case Nil
  then show ?case by (simp add: pendiente_def)
next
  case (Cons row rows)
  show ?case
  proof (cases "ddp_numruc row \<in> ruc_set st")
    case True
    have "length (primeras_desde (ruc_set st) rows) \<le> length rows"
      by (rule length_primeras_desde)
    then have "Suc (length rows) - length (primeras_desde (ruc_set st) rows) =
               Suc (length rows - length (primeras_desde (ruc_set st) rows))"
      by simp
    with True Cons.prems Cons.IH [of "st\<lparr>descartados := descartados st + 1\<rparr>"]
    show ?thesis by simp
  next
    case False
    let ?t = "limpiar_fila env row"
    let ?b = "batch_m st @ [?t]"
    let ?S = "insert (ddp_numruc row) (ruc_set st)"
    let ?rest = "map (limpiar_fila env) (primeras_desde ?S rows)"
    let ?n = "length rows - length (primeras_desde ?S rows)"
    show ?thesis
    proof (cases "length ?b \<ge> bs")
      case True
      obtain c i d where v: "uno_a_uno env (con_m st) ?b (insertados st) (descartados st) = (c, i, d)"
        by (cases "uno_a_uno env (con_m st) ?b (insertados st) (descartados st)")
      have "limpia (fst (uno_a_uno env (con_m st) ?b (insertados st) (descartados st)))"
        using Cons.prems by (rule uno_a_uno_limpia)
      with v have lc: "limpia c" by simp
      let ?st' = "\<lparr>con_m = c, batch_m = [], insertados = i, descartados = d, ruc_set = ?S\<rparr>"
      have "pendiente env (migrar_filas env bs ?st' rows) = uno_a_uno env c ?rest i (d + ?n)"
        using Cons.IH [of ?st'] lc by simp
      moreover have "migrar_filas env bs st (row # rows) = migrar_filas env bs ?st' rows"
        using False True v Cons.prems by (simp add: Let_def volcar_uno_a_uno)
      moreover have "uno_a_uno env (con_m st) (?b @ ?rest) (insertados st) (descartados st + ?n) =
                     uno_a_uno env c ?rest i (d + ?n)"
        using v by (simp add: uno_a_uno_append uno_a_uno_des del: append_assoc)
      ultimately show ?thesis using False by simp
    next
      case nf: False
      let ?st' = "st\<lparr>batch_m := ?b, ruc_set := ?S\<rparr>"
      have "pendiente env (migrar_filas env bs ?st' rows) =
              uno_a_uno env (con_m st) (?b @ ?rest) (insertados st) (descartados st + ?n)"
        using Cons.IH [of ?st'] Cons.prems by simp
      moreover have "migrar_filas env bs st (row # rows) = migrar_filas env bs ?st' rows"
        using False nf by (simp add: Let_def)
      ultimately show ?thesis using False by simp
    qed
  qed
qed

lemma primeras_desde_filter:
  "primeras_desde S rows = primeras (filter (\<lambda>r. ddp_numruc r \<notin> S) rows)"
proof (induction rows arbitrary: S)
  case Nil
  then show ?case by simp
next
  case (Cons row rows)
  have "filter (\<lambda>x. ddp_numruc x \<noteq> ddp_numruc row) (filter (\<lambda>r. ddp_numruc r \<notin> S) rows) =
        filter (\<lambda>r. ddp_numruc r \<notin> insert (ddp_numruc row) S) rows"
    by (induction rows) auto
  then show ?case by (simp add: Cons.IH)
qed

lemma primeras_desde_vacio: "primeras_desde {} rows = primeras rows"
  by (simp add: primeras_desde_filter)

lemma length_primeras: "length (primeras rows) \<le> length rows"
  using length_primeras_desde [of "{}" rows] by (simp add: primeras_desde_vacio)

lemma migrar_lotes_refina:
  assumes "limpia c"
  shows "migrar_lotes env bs c rows =
     (case uno_a_uno env c (map (limpiar_fila env) (primeras rows)) 0 0 of
        (c', i, d) \<Rightarrow> (c', i, d + (length rows - length (primeras rows))))"
proof -
  let ?ini = "\<lparr>con_m = c, batch_m = [], insertados = 0, descartados = 0, ruc_set = {}\<rparr>"
  let ?st = "migrar_filas env bs ?ini rows"
  have l: "limpia (con_m ?st)"
    using assms by (simp add: migrar_filas_limpia)
  have "migrar_lotes env bs c rows = pendiente env ?st"
  proof (cases "batch_m ?st = []")
    case True
    then show ?thesis by (simp add: migrar_lotes_def pendiente_def Let_def)
  next
    case False
    then show ?thesis using l by (simp add: migrar_lotes_def pendiente_def Let_def volcar_uno_a_uno)
  qed
  also have "\<dots> = uno_a_uno env c (map (limpiar_fila env) (primeras rows)) 0
                    (0 + (length rows - length (primeras rows)))"
    using migrar_filas_refina [where st = ?ini and env = env and bs = bs and rows = rows] assms
    by (simp add: primeras_desde_vacio)
  finally show ?thesis by (simp only: uno_a_uno_des)
qed

lemma uno_a_uno_cuenta:
  "uno_a_uno env c b ins des = (c', i, d) \<Longrightarrow> i + d = ins + des + length b"
proof (induction b arbitrary: c ins des)
  case Nil
  then show ?case by simp
next
  case (Cons r rs)
  show ?case
  proof (cases "contribuyente_acepta env (actual c) r")
    case True
    with Cons.prems have "uno_a_uno env (commit (insertar c r)) rs (ins + 1) des = (c', i, d)"
      by simp
    then have "i + d = (ins + 1) + des + length rs" by (rule Cons.IH)
    then show ?thesis by simp
  next
    case False
    with Cons.prems have "uno_a_uno env (rollback c) rs ins (des + 1) = (c', i, d)"
      by simp
    then have "i + d = ins + (des + 1) + length rs" by (rule Cons.IH)
    then show ?thesis by simp
  qed
qed

lemma uno_a_uno_largo:
  "limpia c \<Longrightarrow> uno_a_uno env c b ins des = (c', i, d) \<Longrightarrow>
   length (contribuyente (actual c')) + ins = length (contribuyente (actual c)) + i"
proof (induction b arbitrary: c ins des)
  case Nil
  then show ?case by simp
next
  case (Cons r rs)
  show ?case
  proof (cases "contribuyente_acepta env (actual c) r")
    case True
    with Cons.prems have "uno_a_uno env (commit (insertar c r)) rs (ins + 1) des = (c', i, d)"
      by simp
    with limpia_commit
    have "length (contribuyente (actual c')) + (ins + 1) =
          length (contribuyente (actual (commit (insertar c r)))) + i"
      by (rule Cons.IH)
    then show ?thesis by (simp add: commit_def insertar_def)
  next
    case False
    with Cons.prems have "uno_a_uno env c rs ins (des + 1) = (c', i, d)"
      by (simp add: limpia_rollback)
    with Cons.prems(1) show ?thesis by (rule Cons.IH)
  qed
qed

lemma con_tabla_commit_insertar: "commit (insertar (con_tabla c t) r) = con_tabla c (t @ [r])"
  by (simp add: commit_def insertar_def con_tabla_def)

lemma con_tabla_rollback: "rollback (con_tabla c t) = con_tabla c t"
  by (simp add: rollback_def con_tabla_def)

lemma actual_con_tabla: "actual (con_tabla c t) = (actual c)\<lparr>contribuyente := t\<rparr>"
  by (simp add: con_tabla_def)

lemma con_tabla_limpia: "limpia c \<Longrightarrow> con_tabla c (contribuyente (actual c)) = c"
  by (simp add: con_tabla_def limpia_def)

lemma uno_a_uno_por_fila:
  "list_all (\<lambda>r. \<forall>t. contribuyente_acepta env ((actual c)\<lparr>contribuyente := t\<rparr>) r = ok r) b \<Longrightarrow>
   uno_a_uno env (con_tabla c t0) b ins des =
     (con_tabla c (t0 @ filter ok b), ins + length (filter ok b),
      des + length (filter (\<lambda>r. \<not> ok r) b))"
proof (induction b arbitrary: t0 ins des)
  case Nil
  then show ?case by simp
next
  case (Cons r rs)
  then show ?case
    by (simp add: actual_con_tabla con_tabla_commit_insertar con_tabla_rollback)
qed

lemma filter_otro_ruc:
  "k \<notin> ddp_numruc ` set rs \<Longrightarrow> filter (\<lambda>x. ddp_numruc x \<noteq> k) rs = rs"
  by (induction rs) auto

lemma primeras_distinct: "distinct (map ddp_numruc rows) \<Longrightarrow> primeras rows = rows"
proof (induction rows)
  case Nil
  then show ?case by simp
next
  case (Cons r rs)
  from Cons.prems have "ddp_numruc r \<notin> ddp_numruc ` set rs"
    by simp
  then have "filter (\<lambda>x. ddp_numruc x \<noteq> ddp_numruc r) rs = rs"
    by (rule filter_otro_ruc)
  with Cons show ?case by simp
qed

lemma ruc_limpiar_fila: "ruc (limpiar_fila env r) = ddp_numruc r"
  by (simp add: limpiar_fila_def Let_def)

lemma uno_a_uno_claves:
  "distinct (map ruc b) \<Longrightarrow> ruc ` set b \<inter> ruc ` set t0 = {} \<Longrightarrow>
   list_all (\<lambda>r. \<forall>t. ruc r \<notin> ruc ` set t \<longrightarrow>
       contribuyente_acepta env ((actual c)\<lparr>contribuyente := t\<rparr>) r = ok r) b \<Longrightarrow>
   uno_a_uno env (con_tabla c t0) b ins des =
     (con_tabla c (t0 @ filter ok b), ins + length (filter ok b),
      des + length (filter (\<lambda>r. \<not> ok r) b))"
proof (induction b arbitrary: t0 ins des)
  case Nil
  then show ?case by simp
next
  case (Cons r rs)
  from Cons.prems have fresh: "ruc r \<notin> ruc ` set t0" by auto
  with Cons.prems have ac: "contribuyente_acepta env ((actual c)\<lparr>contribuyente := t0\<rparr>) r = ok r"
    by simp
  from Cons.prems have d: "distinct (map ruc rs)" by simp
  from Cons.prems have la: "list_all (\<lambda>r. \<forall>t. ruc r \<notin> ruc ` set t \<longrightarrow>
       contribuyente_acepta env ((actual c)\<lparr>contribuyente := t\<rparr>) r = ok r) rs" by simp
  show ?case
  proof (cases "ok r")
    case True
    from Cons.prems have i: "ruc ` set rs \<inter> ruc ` set (t0 @ [r]) = {}" by auto
    from d i la have "uno_a_uno env (con_tabla c (t0 @ [r])) rs (ins + 1) des =
       (con_tabla c ((t0 @ [r]) @ filter ok rs), (ins + 1) + length (filter ok rs),
        des + length (filter (\<lambda>r. \<not> ok r) rs))"
      by (rule Cons.IH)
    with True ac show ?thesis
      by (simp add: actual_con_tabla con_tabla_commit_insertar)
  next
    case False
    from Cons.prems have i: "ruc ` set rs \<inter> ruc ` set t0 = {}" by auto
    from d i la have "uno_a_uno env (con_tabla c t0) rs ins (des + 1) =
       (con_tabla c (t0 @ filter ok rs), ins + length (filter ok rs),
        (des + 1) + length (filter (\<lambda>r. \<not> ok r) rs))"
      by (rule Cons.IH)
    with False ac show ?thesis
      by (simp add: actual_con_tabla con_tabla_rollback)
  qed
qed

lemma migrar_lotes_por_fila:
  assumes l: "limpia c" and v: "contribuyente (actual c) = []"
    and d: "distinct (map ddp_numruc rows)"
    and a: "list_all (\<lambda>r. \<forall>t. ddp_numruc r \<notin> ruc ` set t \<longrightarrow>
              contribuyente_acepta env ((actual c)\<lparr>contribuyente := t\<rparr>) (limpiar_fila env r) =
              ok (limpiar_fila env r)) rows"
  shows "migrar_lotes env bs c rows =
     (con_tabla c (filter ok (map (limpiar_fila env) rows)),
      length (filter ok (map (limpiar_fila env) rows)),
      length (filter (\<lambda>r. \<not> ok r) (map (limpiar_fila env) rows)))"
proof -
  let ?b = "map (limpiar_fila env) rows"
  have mr: "map ruc ?b = map ddp_numruc rows"
    by (induction rows) (simp_all add: ruc_limpiar_fila)
  have c0: "con_tabla c [] = c"
    using l v con_tabla_limpia [of c] by simp
  have d': "distinct (map ruc ?b)" using d by (simp only: mr)
  have la: "list_all (\<lambda>r. \<forall>t. ruc r \<notin> ruc ` set t \<longrightarrow>
       contribuyente_acepta env ((actual c)\<lparr>contribuyente := t\<rparr>) r = ok r) ?b"
    using a by (simp add: list_all_iff ruc_limpiar_fila)
  have "uno_a_uno env (con_tabla c []) ?b 0 0 =
       (con_tabla c ([] @ filter ok ?b), 0 + length (filter ok ?b),
        0 + length (filter (\<lambda>r. \<not> ok r) ?b))"
    using d' _ la by (rule uno_a_uno_claves) simp
  then have u: "uno_a_uno env c ?b 0 0 =
       (con_tabla c (filter ok ?b), length (filter ok ?b), length (filter (\<lambda>r. \<not> ok r) ?b))"
    by (simp add: c0)
  show ?thesis
    using l d u by (simp add: migrar_lotes_refina primeras_distinct)
qed

lemma filter_map_todos: "list_all (\<lambda>r. P (f r)) zs \<Longrightarrow> filter P (map f zs) = map f zs"
  by (induction zs) simp_all

lemma filter_map_ninguno: "list_all (\<lambda>r. \<not> P (f r)) zs \<Longrightarrow> filter P (map f zs) = []"
  by (induction zs) simp_all

lemma otro_ruc_todos:
  "k \<notin> ddp_numruc ` set zs \<Longrightarrow> list_all (\<lambda>r. ddp_numruc r \<noteq> k) zs"
  by (induction zs) auto

lemma set_primeras: "set (primeras rows) \<subseteq> set rows"
proof (induction rows rule: primeras.induct)
  case 1
  then show ?case by simp
next
  case (2 r rs)
  have "set (filter (\<lambda>x. ddp_numruc x \<noteq> ddp_numruc r) rs) \<subseteq> set rs"
    by simp
  with 2 have "set (primeras (filter (\<lambda>x. ddp_numruc x \<noteq> ddp_numruc r) rs)) \<subseteq> set rs"
    by (rule subset_trans)
  then show ?case by (simp add: subset_insertI2)
qed

lemma rucs_filter_otro:
  "ddp_numruc ` {x \<in> set rs. ddp_numruc x \<noteq> k} = ddp_numruc ` set rs - {k}"
  by (induction rs) auto

lemma rucs_primeras: "ddp_numruc ` set (primeras rows) = ddp_numruc ` set rows"
proof (induction rows rule: primeras.induct)
  case 1
  then show ?case by simp
next
  case (2 r rs)
  then show ?case by (simp add: rucs_filter_otro)
qed

lemma distinct_primeras: "distinct (map ddp_numruc (primeras rows))"
proof (induction rows rule: primeras.induct)
  case 1
  then show ?case by simp
next
  case (2 r rs)
  have "ddp_numruc r \<notin> ddp_numruc ` set (primeras (filter (\<lambda>x. ddp_numruc x \<noteq> ddp_numruc r) rs))"
    by (simp add: rucs_primeras rucs_filter_otro)
  with 2 show ?case by simp
qed

lemma find_filter_otro:
  "k \<noteq> j \<Longrightarrow> find (\<lambda>x. ddp_numruc x = k) (filter (\<lambda>x. ddp_numruc x \<noteq> j) rs) =
            find (\<lambda>x. ddp_numruc x = k) rs"
  by (induction rs) simp_all

lemma primeras_find:
  "list_all (\<lambda>y. find (\<lambda>x. ddp_numruc x = ddp_numruc y) rows = Some y) (primeras rows)"
proof (induction rows rule: primeras.induct)
  case 1
  then show ?case by simp
next
  case (2 r rs)
  let ?rs = "filter (\<lambda>x. ddp_numruc x \<noteq> ddp_numruc r) rs"
  have ne: "ddp_numruc y \<noteq> ddp_numruc r" if "y \<in> set (primeras ?rs)" for y
  proof -
    from that have "ddp_numruc y \<in> ddp_numruc ` set (primeras ?rs)" by (rule imageI)
    then show ?thesis by (simp add: rucs_primeras rucs_filter_otro)
  qed
  have "find (\<lambda>x. ddp_numruc x = ddp_numruc y) (r # rs) = Some y" if "y \<in> set (primeras ?rs)" for y
  proof -
    from 2 that have "find (\<lambda>x. ddp_numruc x = ddp_numruc y) ?rs = Some y"
      by (simp add: list_all_iff)
    with ne [OF that] show ?thesis
      by (simp add: find_filter_otro)
  qed
  then show ?case by (simp add: list_all_iff)
qed

text \<open>
  C2. When the bulk insert of a batch raises, the batch is rolled back and each of its
  rows is inserted alone, a row that fails counting as discarded and a row that succeeds
  as inserted: on a connection with no open change \<open>volcar_lote\<close> gives what the
  row-by-row loop gives. Hence, for staging rows of distinct RUC migrated into the
  emptied table, where every row but one is taken by the store whenever its RUC is not
  in the table yet and the one is refused whatever the table holds, the run inserts all
  the others and discards exactly that one. This holds for every batch size, so both
  when the refused row sits in a full batch and when it sits in the last, partial one.
\<close>

theorem lote_fallido_fila_a_fila:
  assumes l: "limpia c"
    and v: "contribuyente (actual c) = []"
    and d: "distinct (map ddp_numruc (xs @ malo # ys))"
    and a: "list_all (\<lambda>r. \<forall>t. ddp_numruc r \<notin> ruc ` set t \<longrightarrow>
              contribuyente_acepta env ((actual c)\<lparr>contribuyente := t\<rparr>) (limpiar_fila env r))
            (xs @ ys)"
    and m: "\<forall>t. \<not> contribuyente_acepta env ((actual c)\<lparr>contribuyente := t\<rparr>)
              (limpiar_fila env malo)"
  shows "volcar_lote env c lote ins des = uno_a_uno env c lote ins des \<and>
         migrar_lotes env bs c (xs @ malo # ys) =
           (con_tabla c (map (limpiar_fila env) (xs @ ys)), length xs + length ys, 1)"
proof -
  let ?ok = "\<lambda>r. ruc r \<noteq> ddp_numruc malo"
  let ?f = "limpiar_fila env"
  from d have "ddp_numruc malo \<notin> ddp_numruc ` set xs" "ddp_numruc malo \<notin> ddp_numruc ` set ys"
    by auto
  then have okx: "list_all (\<lambda>r. ?ok (?f r)) xs" and oky: "list_all (\<lambda>r. ?ok (?f r)) ys"
    by (simp_all add: ruc_limpiar_fila otro_ruc_todos)
  have la: "list_all (\<lambda>r. \<forall>t. ddp_numruc r \<notin> ruc ` set t \<longrightarrow>
              contribuyente_acepta env ((actual c)\<lparr>contribuyente := t\<rparr>) (?f r) = ?ok (?f r))
            (xs @ malo # ys)"
  proof -
    have "list_all (\<lambda>r. \<forall>t. ddp_numruc r \<notin> ruc ` set t \<longrightarrow>
              contribuyente_acepta env ((actual c)\<lparr>contribuyente := t\<rparr>) (?f r) = ?ok (?f r)) zs"
      if "list_all (\<lambda>r. \<forall>t. ddp_numruc r \<notin> ruc ` set t \<longrightarrow>
              contribuyente_acepta env ((actual c)\<lparr>contribuyente := t\<rparr>) (?f r)) zs"
        and "list_all (\<lambda>r. ?ok (?f r)) zs" for zs
      using that by (induction zs) simp_all
    from this [of xs] this [of ys] a m okx oky show ?thesis
      by (simp add: ruc_limpiar_fila)
  qed
  have f1: "filter ?ok (map ?f (xs @ malo # ys)) = map ?f (xs @ ys)"
    using okx oky by (simp add: filter_map_todos ruc_limpiar_fila)
  have nx: "list_all (\<lambda>r. \<not> (\<not> ?ok (?f r))) xs" and ny: "list_all (\<lambda>r. \<not> (\<not> ?ok (?f r))) ys"
    using okx oky by simp_all
  have f2: "filter (\<lambda>r. \<not> ?ok r) (map ?f (xs @ malo # ys)) = [?f malo]"
    using filter_map_ninguno [of "\<lambda>r. \<not> ?ok r" ?f xs, OF nx]
      filter_map_ninguno [of "\<lambda>r. \<not> ?ok r" ?f ys, OF ny]
    by (simp add: ruc_limpiar_fila)
  have "migrar_lotes env bs c (xs @ malo # ys) =
     (con_tabla c (filter ?ok (map ?f (xs @ malo # ys))),
      length (filter ?ok (map ?f (xs @ malo # ys))),
      length (filter (\<lambda>r. \<not> ?ok r) (map ?f (xs @ malo # ys))))"
    using l v d la by (rule migrar_lotes_por_fila)
  then have "migrar_lotes env bs c (xs @ malo # ys) =
           (con_tabla c (map ?f (xs @ ys)), length xs + length ys, 1)"
    by (simp only: f1 f2) simp
  with l show ?thesis by (simp add: volcar_uno_a_uno)
qed

lemma limpia_con_demo: "limpia (con_demo st)"
  by (simp add: limpia_def con_demo_def)

lemma tabla_con_demo: "contribuyente (actual (con_demo st)) = []"
  by (simp add: con_demo_def bd_demo_def)

lemma acepta_demo:
  "contribuyente_acepta env_demo ((actual (con_demo st))\<lparr>contribuyente := t\<rparr>)
     (limpiar_fila env_demo (fila_st n ciiu tipo)) =
   ((lit ciiu = lit ''5211'' \<or> lit ciiu = lit ''75113'') \<and> n \<notin> ruc ` set t)"
  by (auto simp: env_demo_def con_demo_def bd_demo_def limpiar_fila_def fila_st_def Let_def
      list_ex_iff)

text \<open>
  A run with batch size 2 over three rows, the second with an activity code that the
  catalog lacks: the bulk insert of the first batch raises, and the run ends with two rows
  inserted and one discarded.
\<close>

theorem lote_fallido_fila_a_fila_witness:
  "limpia (con_demo []) \<and>
   fst (executemany env_demo (con_demo [])
         (map (limpiar_fila env_demo)
            [fila_st 20100001 ''5211'' ''B9'', fila_st 20100002 ''9999'' ''A''])) = False \<and>
   migrar_lotes env_demo 2 (con_demo [])
     [fila_st 20100001 ''5211'' ''B9'', fila_st 20100002 ''9999'' ''A'',
      fila_st 20100003 ''75113'' ''ZZ''] =
     (con_tabla (con_demo [])
        (map (limpiar_fila env_demo)
           [fila_st 20100001 ''5211'' ''B9'', fila_st 20100003 ''75113'' ''ZZ'']), 2, 1)"
proof -
  let ?f1 = "fila_st 20100001 ''5211'' ''B9''"
  let ?f2 = "fila_st 20100002 ''9999'' ''A''"
  let ?f3 = "fila_st 20100003 ''75113'' ''ZZ''"
  have d: "distinct (map ddp_numruc ([?f1] @ ?f2 # [?f3]))"
    by (simp add: fila_st_def)
  have a: "list_all (\<lambda>r. \<forall>t. ddp_numruc r \<notin> ruc ` set t \<longrightarrow>
              contribuyente_acepta env_demo ((actual (con_demo []))\<lparr>contribuyente := t\<rparr>)
                (limpiar_fila env_demo r)) ([?f1] @ [?f3])"
    by (simp add: acepta_demo) (simp add: fila_st_def)
  have m: "\<forall>t. \<not> contribuyente_acepta env_demo ((actual (con_demo []))\<lparr>contribuyente := t\<rparr>)
              (limpiar_fila env_demo ?f2)"
    by (simp add: acepta_demo lit_def)
  have e: "fst (executemany env_demo (con_demo []) (map (limpiar_fila env_demo) [?f1, ?f2])) = False"
    using acepta_demo [where st = "[]" and t = "[]" and n = 20100001 and ciiu = "''5211''"
        and tipo = "''B9''"]
      acepta_demo [where st = "[]" and t = "[limpiar_fila env_demo ?f1]" and n = 20100002
        and ciiu = "''9999''" and tipo = "''A''"]
    by (simp add: insertar_def lit_def con_demo_def bd_demo_def)
  from lote_fallido_fila_a_fila [OF limpia_con_demo tabla_con_demo d a m, of "[]" 0 0 2] e
    limpia_con_demo
  show ?thesis by simp
qed

lemma uno_a_uno_una_fila_demo:
  "n \<noteq> 611077 \<Longrightarrow> lit ciiu = lit ''5211'' \<or> lit ciiu = lit ''75113'' \<Longrightarrow>
   uno_a_uno env_demo (con_demo st) [limpiar_fila env_demo (fila_st n ciiu tipo)] 0 0 =
     (con_tabla (con_demo st) [limpiar_fila env_demo (fila_st n ciiu tipo)], 1, 0)"
  using acepta_demo [where st = st and t = "[]" and n = n and ciiu = ciiu and tipo = tipo]
    con_tabla_commit_insertar [where c = "con_demo st" and t = "[]"]
    con_tabla_limpia [OF limpia_con_demo, of st]
  by (simp add: tabla_con_demo con_demo_def bd_demo_def)

text \<open>
  C3. In one migration run the first row with a given RUC is kept and every later row
  with the same RUC is discarded without reaching the store, one discard per duplicate:
  the run gives what inserting the first rows one by one gives, with one more discard
  for each row that is not a first row. The rows kept are the first rows of their RUC
  in the input, one per RUC of the input. In particular, of two rows with the same RUC
  only the first is offered to the store, whatever the other fields of the second are,
  and the second adds one discard.
\<close>

theorem primera_fila_por_ruc:
  assumes "limpia c"
  shows "migrar_lotes env bs c rows =
           (case uno_a_uno env c (map (limpiar_fila env) (primeras rows)) 0 0 of
              (c', i, d) \<Rightarrow> (c', i, d + (length rows - length (primeras rows)))) \<and>
         list_all (\<lambda>y. find (\<lambda>x. ddp_numruc x = ddp_numruc y) rows = Some y) (primeras rows) \<and>
         distinct (map ddp_numruc (primeras rows)) \<and>
         ddp_numruc ` set (primeras rows) = ddp_numruc ` set rows \<and>
         (ddp_numruc r2 = ddp_numruc r1 \<longrightarrow>
            migrar_lotes env bs c [r1, r2] =
              (case uno_a_uno env c [limpiar_fila env r1] 0 0 of
                 (c', i, d) \<Rightarrow> (c', i, d + 1)))"
proof -
  have "migrar_lotes env bs c [r1, r2] =
          (case uno_a_uno env c [limpiar_fila env r1] 0 0 of (c', i, d) \<Rightarrow> (c', i, d + 1))"
    if "ddp_numruc r2 = ddp_numruc r1"
    using that migrar_lotes_refina [OF assms, of env bs "[r1, r2]"] by simp
  with assms show ?thesis
    by (simp add: migrar_lotes_refina primeras_find distinct_primeras rucs_primeras)
qed

text \<open>
  Two staging rows with the same RUC and different activity code and company type: the run
  inserts the first and discards the second.
\<close>

theorem primera_fila_por_ruc_witness:
  "limpia (con_demo []) \<and>
   ddp_numruc (fila_st 20100001 ''75113'' ''ZZ'') = ddp_numruc (fila_st 20100001 ''5211'' ''B9'') \<and>
   fila_st 20100001 ''75113'' ''ZZ'' \<noteq> fila_st 20100001 ''5211'' ''B9'' \<and>
   migrar_lotes env_demo BATCH_SIZE (con_demo [])
     [fila_st 20100001 ''5211'' ''B9'', fila_st 20100001 ''75113'' ''ZZ''] =
     (con_tabla (con_demo []) [limpiar_fila env_demo (fila_st 20100001 ''5211'' ''B9'')], 1, 1)"
proof -
  have n: "fila_st 20100001 ''75113'' ''ZZ'' \<noteq> fila_st 20100001 ''5211'' ''B9''"
    by (simp add: fila_st_def lit_def)
  have k: "ddp_numruc (fila_st 20100001 ''75113'' ''ZZ'') =
           ddp_numruc (fila_st 20100001 ''5211'' ''B9'')"
    by (simp add: fila_st_def)
  from primera_fila_por_ruc [OF limpia_con_demo, of env_demo BATCH_SIZE "[]" "[]"
      "fila_st 20100001 ''75113'' ''ZZ''" "fila_st 20100001 ''5211'' ''B9''"] k
  have "migrar_lotes env_demo BATCH_SIZE (con_demo [])
          [fila_st 20100001 ''5211'' ''B9'', fila_st 20100001 ''75113'' ''ZZ''] =
        (case uno_a_uno env_demo (con_demo [])
                [limpiar_fila env_demo (fila_st 20100001 ''5211'' ''B9'')] 0 0 of
           (c', i, d) \<Rightarrow> (c', i, d + 1))"
    by (simp del: uno_a_uno.simps)
  moreover have "uno_a_uno env_demo (con_demo [])
                   [limpiar_fila env_demo (fila_st 20100001 ''5211'' ''B9'')] 0 0 =
                 (con_tabla (con_demo [])
                    [limpiar_fila env_demo (fila_st 20100001 ''5211'' ''B9'')], 1, 0)"
    by (rule uno_a_uno_una_fila_demo) simp_all
  ultimately have "migrar_lotes env_demo BATCH_SIZE (con_demo [])
          [fila_st 20100001 ''5211'' ''B9'', fila_st 20100001 ''75113'' ''ZZ''] =
        (con_tabla (con_demo []) [limpiar_fila env_demo (fila_st 20100001 ''5211'' ''B9'')], 1, 1)"
    by (simp del: uno_a_uno.simps)
  with n k limpia_con_demo show ?thesis
    by (simp del: uno_a_uno.simps)
qed

lemma limpia_vaciada: "limpia (vaciada conn)"
  by (simp add: vaciada_def limpia_commit)

lemma migrar_desde_vaciada:
  "migrar_staging_a_contribuyente env bs conn =
     (case migrar_lotes env bs (vaciada conn) (filter filtro (staging (actual conn))) of
        (c, ins, des) \<Rightarrow>
          \<lparr>conexion_m = agregar_especial env c, retorno_m = ins, log_m = (ins, des)\<rparr>)"
  by (simp add: migrar_staging_a_contribuyente_def vaciada_def Let_def commit_def)

lemma largo_agregar_especial:
  "length (contribuyente (actual (agregar_especial env c))) = length (contribuyente (actual c)) \<or>
   length (contribuyente (actual (agregar_especial env c))) = length (contribuyente (actual c)) + 1"
  by (simp add: agregar_especial_def commit_def insertar_def)

lemma migrar_cuentas:
  assumes "migrar_lotes env bs (vaciada conn) rows = (c, ins, des)"
  shows "ins + des = length rows"
    and "ins \<le> length (primeras rows)"
    and "length rows - length (primeras rows) \<le> des"
    and "length (contribuyente (actual c)) = ins"
proof -
  obtain c' i d where u:
    "uno_a_uno env (vaciada conn) (map (limpiar_fila env) (primeras rows)) 0 0 = (c', i, d)"
    by (cases "uno_a_uno env (vaciada conn) (map (limpiar_fila env) (primeras rows)) 0 0")
  from assms u have e: "c = c'" "ins = i" "des = d + (length rows - length (primeras rows))"
    by (simp_all add: migrar_lotes_refina [OF limpia_vaciada])
  from u have s: "i + d = length (primeras rows)"
    by (simp add: uno_a_uno_cuenta)
  have "length (primeras rows) \<le> length rows" by (rule length_primeras)
  with e s show "ins + des = length rows" by simp
  from e s show "ins \<le> length (primeras rows)" by simp
  from e show "length rows - length (primeras rows) \<le> des" by simp
  from uno_a_uno_largo [OF limpia_vaciada u] e
  show "length (contribuyente (actual c)) = ins"
    by (simp add: vaciada_def commit_def)
qed

text \<open>
  C10. Every filtered staging row is accounted for exactly once: the inserted count and
  the discarded count of a run add up to the number of rows that pass the filter. The
  rows that are not the first of their RUC are all among the discarded, the inserted are
  among the first rows, and the table holds as many rows as were inserted, or one more:
  the special record, which neither count includes.
\<close>

theorem cada_fila_contada_una_vez:
  "fst (log_m (migrar_staging_a_contribuyente env bs conn)) +
     snd (log_m (migrar_staging_a_contribuyente env bs conn)) =
     length (filter filtro (staging (actual conn))) \<and>
   fst (log_m (migrar_staging_a_contribuyente env bs conn)) \<le>
     length (primeras (filter filtro (staging (actual conn)))) \<and>
   length (filter filtro (staging (actual conn))) -
     length (primeras (filter filtro (staging (actual conn)))) \<le>
     snd (log_m (migrar_staging_a_contribuyente env bs conn)) \<and>
   (length (contribuyente (actual (conexion_m (migrar_staging_a_contribuyente env bs conn)))) =
      fst (log_m (migrar_staging_a_contribuyente env bs conn)) \<or>
    length (contribuyente (actual (conexion_m (migrar_staging_a_contribuyente env bs conn)))) =
      fst (log_m (migrar_staging_a_contribuyente env bs conn)) + 1)"
proof -
  let ?rows = "filter filtro (staging (actual conn))"
  obtain c ins des where m: "migrar_lotes env bs (vaciada conn) ?rows = (c, ins, des)"
    by (cases "migrar_lotes env bs (vaciada conn) ?rows")
  note k = migrar_cuentas [OF m]
  from m have o: "migrar_staging_a_contribuyente env bs conn =
      \<lparr>conexion_m = agregar_especial env c, retorno_m = ins, log_m = (ins, des)\<rparr>"
    by (simp add: migrar_desde_vaciada)
  from largo_agregar_especial [of env c] k show ?thesis
    by (simp add: o)
qed

text \<open>
  C5, as the code has it. The function returns the inserted count alone, a number: it is
  the first number of its last log line and the number of rows the batches put into the
  emptied table (the table holds that many rows, or one more with the special record).
  The discarded count is written to the log line only.
\<close>

theorem retorno_es_insertados:
  "retorno_m (migrar_staging_a_contribuyente env bs conn) =
     fst (log_m (migrar_staging_a_contribuyente env bs conn)) \<and>
   retorno_m (migrar_staging_a_contribuyente env bs conn) =
     length (contribuyente (actual (fst (migrar_lotes env bs (vaciada conn)
        (filter filtro (staging (actual conn))))))) \<and>
   conexion_m (migrar_staging_a_contribuyente env bs conn) =
     agregar_especial env (fst (migrar_lotes env bs (vaciada conn)
        (filter filtro (staging (actual conn)))))"
proof -
  let ?rows = "filter filtro (staging (actual conn))"
  obtain c ins des where m: "migrar_lotes env bs (vaciada conn) ?rows = (c, ins, des)"
    by (cases "migrar_lotes env bs (vaciada conn) ?rows")
  note k = migrar_cuentas [OF m]
  from m k show ?thesis
    by (simp add: migrar_desde_vaciada)
qed

lemma vaciada_con_demo: "vaciada (con_demo st) = con_demo st"
  by (simp add: vaciada_def con_demo_def bd_demo_def commit_def)

lemma filtro_fila_st: "10000 \<le> n \<Longrightarrow> filtro (fila_st n ciiu tipo)"
  by (simp add: filtro_def fila_st_def)

lemma acepta_especial_demo:
  "contribuyente_acepta env_demo ((actual (con_demo st))\<lparr>contribuyente := t\<rparr>) registro_especial =
     (611077 \<notin> ruc ` set t)"
  by (auto simp: env_demo_def con_demo_def bd_demo_def registro_especial_def list_ex_iff)

lemma especial_tras_una_fila_demo:
  "n \<noteq> 611077 \<Longrightarrow>
   agregar_especial env_demo (con_tabla (con_demo st) [limpiar_fila env_demo (fila_st n ciiu tipo)]) =
     con_tabla (con_demo st) [limpiar_fila env_demo (fila_st n ciiu tipo), registro_especial]"
proof -
  assume n: "n \<noteq> 611077"
  let ?x = "limpiar_fila env_demo (fila_st n ciiu tipo)"
  have rx: "ruc ?x = n"
    by (simp add: ruc_limpiar_fila fila_st_def)
  from n have a: "\<not> list_ex (\<lambda>r. ruc r = 611077) (contribuyente (actual (con_tabla (con_demo st) [?x])))"
    by (simp add: actual_con_tabla rx)
  from n have b: "contribuyente_acepta env_demo (actual (con_tabla (con_demo st) [?x])) registro_especial"
    by (simp add: actual_con_tabla acepta_especial_demo rx)
  from a b show ?thesis
    by (simp add: agregar_especial_def con_tabla_commit_insertar)
qed

lemma migrar_demo_una:
  "migrar_staging_a_contribuyente env_demo BATCH_SIZE (con_demo [fila_st 20100001 ''5211'' ''B9'']) =
     \<lparr>conexion_m = con_tabla (con_demo [fila_st 20100001 ''5211'' ''B9''])
        [limpiar_fila env_demo (fila_st 20100001 ''5211'' ''B9''), registro_especial],
      retorno_m = 1, log_m = (1, 0)\<rparr>"
proof -
  have "migrar_lotes env_demo BATCH_SIZE (con_demo [fila_st 20100001 ''5211'' ''B9''])
          [fila_st 20100001 ''5211'' ''B9''] =
        (con_tabla (con_demo [fila_st 20100001 ''5211'' ''B9''])
           [limpiar_fila env_demo (fila_st 20100001 ''5211'' ''B9'')], 1, 0)"
    by (simp add: migrar_lotes_refina [OF limpia_con_demo] uno_a_uno_una_fila_demo
        del: uno_a_uno.simps)
  moreover have "filter filtro (staging (actual (con_demo [fila_st 20100001 ''5211'' ''B9'']))) =
                 [fila_st 20100001 ''5211'' ''B9'']"
    by (simp add: con_demo_def bd_demo_def filtro_fila_st)
  ultimately show ?thesis
    by (simp add: migrar_desde_vaciada vaciada_con_demo especial_tras_una_fila_demo)
qed

lemma migrar_demo_dos:
  "migrar_staging_a_contribuyente env_demo BATCH_SIZE
     (con_demo [fila_st 20100001 ''5211'' ''B9'', fila_st 20100001 ''75113'' ''ZZ'']) =
     \<lparr>conexion_m = con_tabla (con_demo [fila_st 20100001 ''5211'' ''B9'', fila_st 20100001 ''75113'' ''ZZ''])
        [limpiar_fila env_demo (fila_st 20100001 ''5211'' ''B9''), registro_especial],
      retorno_m = 1, log_m = (1, 1)\<rparr>"
proof -
  let ?st = "[fila_st 20100001 ''5211'' ''B9'', fila_st 20100001 ''75113'' ''ZZ'']"
  have p: "primeras ?st = [fila_st 20100001 ''5211'' ''B9'']"
    by (simp add: fila_st_def)
  have "migrar_lotes env_demo BATCH_SIZE (con_demo ?st) ?st =
        (con_tabla (con_demo ?st)
           [limpiar_fila env_demo (fila_st 20100001 ''5211'' ''B9'')], 1, 1)"
    by (simp add: migrar_lotes_refina [OF limpia_con_demo] p uno_a_uno_una_fila_demo
        del: uno_a_uno.simps primeras.simps)
  moreover have "filter filtro (staging (actual (con_demo ?st))) = ?st"
    by (simp add: con_demo_def bd_demo_def filtro_fila_st)
  ultimately show ?thesis
    by (simp add: migrar_desde_vaciada vaciada_con_demo especial_tras_una_fila_demo
        del: primeras.simps)
qed

text \<open>
  C5 as the specification states it fails: the value returned does not carry the
  discarded count. A staging table with one row, and the same table with a second row
  of the same RUC, give the same returned value 1 and the same canonical table, while
  the discarded counts of the two runs are 0 and 1.
\<close>

theorem retorno_sin_descartados_counterexample:
  "retorno_m (migrar_staging_a_contribuyente env_demo BATCH_SIZE
      (con_demo [fila_st 20100001 ''5211'' ''B9''])) = 1 \<and>
   retorno_m (migrar_staging_a_contribuyente env_demo BATCH_SIZE
      (con_demo [fila_st 20100001 ''5211'' ''B9'', fila_st 20100001 ''75113'' ''ZZ''])) = 1 \<and>
   contribuyente (actual (conexion_m (migrar_staging_a_contribuyente env_demo BATCH_SIZE
      (con_demo [fila_st 20100001 ''5211'' ''B9''])))) =
   contribuyente (actual (conexion_m (migrar_staging_a_contribuyente env_demo BATCH_SIZE
      (con_demo [fila_st 20100001 ''5211'' ''B9'', fila_st 20100001 ''75113'' ''ZZ''])))) \<and>
   log_m (migrar_staging_a_contribuyente env_demo BATCH_SIZE
      (con_demo [fila_st 20100001 ''5211'' ''B9''])) = (1, 0) \<and>
   log_m (migrar_staging_a_contribuyente env_demo BATCH_SIZE
      (con_demo [fila_st 20100001 ''5211'' ''B9'', fila_st 20100001 ''75113'' ''ZZ''])) = (1, 1)"
  by (simp only: migrar_demo_una migrar_demo_dos) (simp add: actual_con_tabla)

text \<open>
  The same two rows through the whole function: one inserted, one discarded, and two rows
  in the table, the second of them the special record.
\<close>

theorem cada_fila_contada_una_vez_witness:
  "log_m (migrar_staging_a_contribuyente env_demo BATCH_SIZE
      (con_demo [fila_st 20100001 ''5211'' ''B9'', fila_st 20100001 ''75113'' ''ZZ''])) = (1, 1) \<and>
   length (filter filtro (staging (actual
      (con_demo [fila_st 20100001 ''5211'' ''B9'', fila_st 20100001 ''75113'' ''ZZ''])))) = 2 \<and>
   length (contribuyente (actual (conexion_m (migrar_staging_a_contribuyente env_demo BATCH_SIZE
      (con_demo [fila_st 20100001 ''5211'' ''B9'', fila_st 20100001 ''75113'' ''ZZ''])))))
     = 2"
proof -
  let ?c = "con_demo [fila_st 20100001 ''5211'' ''B9'', fila_st 20100001 ''75113'' ''ZZ'']"
  have f: "filter filtro (staging (actual ?c)) =
           [fila_st 20100001 ''5211'' ''B9'', fila_st 20100001 ''75113'' ''ZZ'']"
    by (simp add: con_demo_def bd_demo_def filtro_def fila_st_def)
  have l: "log_m (migrar_staging_a_contribuyente env_demo BATCH_SIZE ?c) = (1, 1)"
    by (simp only: migrar_demo_dos) simp
  have t: "length (contribuyente (actual (conexion_m
             (migrar_staging_a_contribuyente env_demo BATCH_SIZE ?c)))) = 2"
    by (simp only: migrar_demo_dos) (simp add: actual_con_tabla)
  from cada_fila_contada_una_vez [of env_demo BATCH_SIZE ?c] f l t
  show ?thesis by simp
qed

section \<open>Properties of the staging load\<close>

lemma aceptadas_Nil: "aceptadas env [] = []"
  by (simp add: aceptadas_def)

lemma aceptadas_Cons: "aceptadas env (row # csv) = aceptadas env [row] @ aceptadas env csv"
  by (simp add: aceptadas_def)

lemma ignoradas_Nil: "ignoradas env [] = 0"
  by (simp add: ignoradas_def)

lemma ignoradas_Cons: "ignoradas env (row # csv) = ignoradas env [row] + ignoradas env csv"
  by (simp add: ignoradas_def)

lemma paso_carga_marco:
  assumes p: "paso_carga env bs st row = Inr st1" and l: "limpia (con_c st)"
  shows "marco st st1 [row] env"
proof (cases "leer_fila env row")
  case (Inl e)
  with p have e: "e = ValueError \<or> e = KeyError" and s: "st1 = st\<lparr>filas_error := filas_error st + 1\<rparr>"
    by (auto simp: paso_carga_def split: if_splits)
  from Inl e have "aceptadas env [row] = []" "ignoradas env [row] = 1"
    by (auto simp: aceptadas_def ignoradas_def contada_def)
  with s l show ?thesis by (simp add: marco_def)
next
  case (Inr res)
  show ?thesis
  proof (cases res)
    case None
    with Inr p have s: "st1 = st" by (simp add: paso_carga_def)
    from Inr None have "aceptadas env [row] = []" "ignoradas env [row] = 0"
      by (simp_all add: aceptadas_def ignoradas_def contada_def)
    with s l show ?thesis by (simp add: marco_def)
  next
    case (Some t)
    with Inr have a: "aceptadas env [row] = [t]" "ignoradas env [row] = 0"
      by (simp_all add: aceptadas_def ignoradas_def contada_def)
    show ?thesis
    proof (cases "length (batch_c st @ [t]) \<ge> bs")
      case True
      with Inr Some p obtain c where
        x: "executemany_staging env (con_c st) (batch_c st @ [t]) = Inr c" and
        s: "st1 = st\<lparr>con_c := commit c, batch_c := [],
                       filas_ok := filas_ok st + length (batch_c st @ [t])\<rparr>"
        by (auto simp: paso_carga_def Let_def split: sum.splits)
      from x have c: "c = (con_c st)\<lparr>actual := (actual (con_c st))\<lparr>staging :=
                          staging (actual (con_c st)) @ batch_c st @ [t]\<rparr>\<rparr>"
        by (simp add: executemany_staging_def split: if_splits)
      show ?thesis
        by (simp add: marco_def s c a limpia_def commit_def)
    next
      case False
      with Inr Some p have s: "st1 = st\<lparr>batch_c := batch_c st @ [t]\<rparr>"
        by (simp add: paso_carga_def Let_def)
      with a l show ?thesis by (simp add: marco_def)
    qed
  qed
qed

lemma marco_trans:
  "marco st st1 [row] env \<Longrightarrow> marco st1 st2 csv env \<Longrightarrow> marco st st2 (row # csv) env"
  using aceptadas_Cons [of env row csv] ignoradas_Cons [of env row csv]
  by (simp add: marco_def)

lemma cargar_filas_marco:
  "cargar_filas env bs st csv = Inr st' \<Longrightarrow> limpia (con_c st) \<Longrightarrow> marco st st' csv env"
proof (induction csv arbitrary: st)
  case Nil
  then show ?case by (simp add: marco_def aceptadas_Nil ignoradas_Nil)
next
  case (Cons row csv)
  from Cons.prems(1) obtain st1 where
    p: "paso_carga env bs st row = Inr st1" and r: "cargar_filas env bs st1 csv = Inr st'"
    by (auto split: sum.splits)
  from p Cons.prems(2) have m1: "marco st st1 [row] env" by (rule paso_carga_marco)
  then have "limpia (con_c st1)" by (simp add: marco_def)
  with r have "marco st1 st' csv env" by (rule Cons.IH)
  with m1 show ?case by (rule marco_trans)
qed


lemma executemany_staging_lote:
  "executemany_staging env c b = Inr c' \<Longrightarrow> \<exists>c2'. executemany_staging env c2 b = Inr c2'"
  by (simp add: executemany_staging_def split: if_splits)

lemma paso_carga_exito:
  assumes p: "paso_carga env bs st row = Inr st1" and b: "batch_c st2 = batch_c st"
  shows "\<exists>st3. paso_carga env bs st2 row = Inr st3 \<and> batch_c st3 = batch_c st1"
proof (cases "leer_fila env row")
  case (Inl e)
  with p show ?thesis
    by (auto simp: paso_carga_def b split: if_splits)
next
  case (Inr res)
  show ?thesis
  proof (cases res)
    case None
    with Inr p show ?thesis by (simp add: paso_carga_def b)
  next
    case (Some t)
    show ?thesis
    proof (cases "length (batch_c st @ [t]) \<ge> bs")
      case True
      with Inr Some p obtain c where
        x: "executemany_staging env (con_c st) (batch_c st @ [t]) = Inr c" and
        s: "batch_c st1 = []"
        by (auto simp: paso_carga_def Let_def split: sum.splits)
      from x obtain c2 where "executemany_staging env (con_c st2) (batch_c st @ [t]) = Inr c2"
        using executemany_staging_lote by blast
      with Inr Some True s show ?thesis
        by (simp add: paso_carga_def Let_def b)
    next
      case False
      with Inr Some p show ?thesis
        by (auto simp: paso_carga_def Let_def b)
    qed
  qed
qed

lemma cargar_filas_exito:
  "cargar_filas env bs st csv = Inr st' \<Longrightarrow> batch_c st2 = batch_c st \<Longrightarrow>
   \<exists>st2'. cargar_filas env bs st2 csv = Inr st2' \<and> batch_c st2' = batch_c st'"
proof (induction csv arbitrary: st st2)
  case Nil
  then show ?case by simp
next
  case (Cons row csv)
  from Cons.prems(1) obtain st1 where
    p: "paso_carga env bs st row = Inr st1" and r: "cargar_filas env bs st1 csv = Inr st'"
    by (auto split: sum.splits)
  from p Cons.prems(2) obtain st3 where
    p2: "paso_carga env bs st2 row = Inr st3" and b3: "batch_c st3 = batch_c st1"
    using paso_carga_exito by blast
  from Cons.IH [OF r b3] p2 show ?case by simp
qed

lemma mismo_marco_staging:
  "b\<lparr>staging := []\<rparr> = b0\<lparr>staging := []\<rparr> \<Longrightarrow> b\<lparr>staging := x\<rparr> = b0\<lparr>staging := x\<rparr>"
proof -
  assume "b\<lparr>staging := []\<rparr> = b0\<lparr>staging := []\<rparr>"
  then have "(b\<lparr>staging := []\<rparr>)\<lparr>staging := x\<rparr> = (b0\<lparr>staging := []\<rparr>)\<lparr>staging := x\<rparr>"
    by simp
  then show ?thesis by simp
qed

lemma cargar_desde_inicio:
  "cargar_csv_a_staging env bs conn csv =
     (case cargar_filas env bs (inicio_carga conn) csv of
        Inl e \<Rightarrow> Inl e
      | Inr st \<Rightarrow>
          if batch_c st \<noteq> [] then
            (case executemany_staging env (con_c st) (batch_c st) of
               Inl e \<Rightarrow> Inl e
             | Inr c \<Rightarrow>
                 Inr \<lparr>conexion_c = commit c, retorno_c = filas_ok st + length (batch_c st),
                      log_c = (filas_ok st + length (batch_c st), filas_error st)\<rparr>)
          else Inr \<lparr>conexion_c = con_c st, retorno_c = filas_ok st,
                    log_c = (filas_ok st, filas_error st)\<rparr>)"
  by (simp add: cargar_csv_a_staging_def inicio_carga_def Let_def)

lemma cargar_resultado:
  assumes "cargar_csv_a_staging env bs conn csv = Inr out"
  shows "limpia (conexion_c out) \<and>
         actual (conexion_c out) = (actual conn)\<lparr>staging := aceptadas env csv\<rparr> \<and>
         retorno_c out = length (aceptadas env csv) \<and>
         log_c out = (length (aceptadas env csv), ignoradas env csv)"
proof -
  from assms obtain st where f: "cargar_filas env bs (inicio_carga conn) csv = Inr st"
    by (auto simp: cargar_desde_inicio split: sum.splits)
  have "limpia (con_c (inicio_carga conn))"
    by (simp add: inicio_carga_def limpia_commit)
  with f have m: "marco (inicio_carga conn) st csv env" by (rule cargar_filas_marco)
  then have l: "limpia (con_c st)"
    and fr: "(actual (con_c st))\<lparr>staging := []\<rparr> = (actual conn)\<lparr>staging := []\<rparr>"
    and sb: "staging (actual (con_c st)) @ batch_c st = aceptadas env csv"
    and ok: "filas_ok st + length (batch_c st) = length (aceptadas env csv)"
    and er: "filas_error st = ignoradas env csv"
    by (simp_all add: marco_def inicio_carga_def commit_def)
  have ac: "(actual (con_c st))\<lparr>staging := x\<rparr> = (actual conn)\<lparr>staging := x\<rparr>" for x
    using fr by (rule mismo_marco_staging)
  show ?thesis
  proof (cases "batch_c st = []")
    case True
    with assms f have o: "out = \<lparr>conexion_c = con_c st, retorno_c = filas_ok st,
                    log_c = (filas_ok st, filas_error st)\<rparr>"
      by (simp add: cargar_desde_inicio)
    from True sb have "staging (actual (con_c st)) = aceptadas env csv" by simp
    then have "actual (con_c st) = (actual (con_c st))\<lparr>staging := aceptadas env csv\<rparr>"
      by (metis bd.surjective bd.update_convs(1))
    with ac have "actual (con_c st) = (actual conn)\<lparr>staging := aceptadas env csv\<rparr>" by simp
    with o l ok er True show ?thesis by simp
  next
    case False
    with assms f obtain c where
      x: "executemany_staging env (con_c st) (batch_c st) = Inr c" and
      o: "out = \<lparr>conexion_c = commit c, retorno_c = filas_ok st + length (batch_c st),
                      log_c = (filas_ok st + length (batch_c st), filas_error st)\<rparr>"
      by (auto simp: cargar_desde_inicio split: sum.splits)
    from x have c: "c = (con_c st)\<lparr>actual := (actual (con_c st))\<lparr>staging :=
                          staging (actual (con_c st)) @ batch_c st\<rparr>\<rparr>"
      by (simp add: executemany_staging_def split: if_splits)
    from c sb ac have "actual (commit c) = (actual conn)\<lparr>staging := aceptadas env csv\<rparr>"
      by (simp add: commit_def)
    with o ok er show ?thesis by (simp add: limpia_commit)
  qed
qed

lemma cargar_exito:
  assumes "cargar_csv_a_staging env bs conn csv = Inr out"
  shows "\<exists>out2. cargar_csv_a_staging env bs conn2 csv = Inr out2"
proof -
  from assms obtain st where f: "cargar_filas env bs (inicio_carga conn) csv = Inr st"
    by (auto simp: cargar_desde_inicio split: sum.splits)
  have "batch_c (inicio_carga conn2) = batch_c (inicio_carga conn)"
    by (simp add: inicio_carga_def)
  with f obtain st2 where f2: "cargar_filas env bs (inicio_carga conn2) csv = Inr st2"
    and b2: "batch_c st2 = batch_c st"
    using cargar_filas_exito by blast
  show ?thesis
  proof (cases "batch_c st = []")
    case True
    with f2 b2 show ?thesis by (simp add: cargar_desde_inicio)
  next
    case False
    with assms f obtain c where "executemany_staging env (con_c st) (batch_c st) = Inr c"
      by (auto simp: cargar_desde_inicio split: sum.splits)
    then obtain c2 where "executemany_staging env (con_c st2) (batch_c st) = Inr c2"
      using executemany_staging_lote by blast
    with f2 b2 False show ?thesis by (simp add: cargar_desde_inicio)
  qed
qed

lemma convertir_no_nulo:
  "row c \<noteq> Nulo \<Longrightarrow> convertir conv row c = Inl e \<Longrightarrow> e = ValueError \<or> e = KeyError"
  by (auto simp: convertir_def split: celda.splits if_splits option.splits)

lemma convertir_en_blanco:
  "row c = Texto s \<Longrightarrow> strip s = [] \<Longrightarrow> convertir conv row c = Inr None"
  by (simp add: convertir_def)

lemma convertir_falla:
  "row c = Texto s \<Longrightarrow> strip s \<noteq> [] \<Longrightarrow> conv s = None \<Longrightarrow> convertir conv row c = Inl ValueError"
  by (simp add: convertir_def)

lemma leer_fila_ruc_falla:
  "row Ddp_numruc = Texto s \<Longrightarrow> strip s \<noteq> [] \<Longrightarrow> conv_int env s = None \<Longrightarrow>
   leer_fila env row = Inl ValueError"
  by (simp add: leer_fila_def ligar_def convertir_falla)

lemma leer_fila_sin_ruc:
  assumes r: "row Ddp_numruc = Texto s" and b: "strip s = []"
    and n: "row Dds_edad \<noteq> Nulo" "row Deuda \<noteq> Nulo" "row Condicion \<noteq> Nulo"
  shows "(\<not> (isl (convertir (conv_int env) row Dds_edad) \<or>
            isl (convertir (conv_float env) row Deuda) \<or>
            isl (convertir (conv_int env) row Condicion)) \<longrightarrow>
        leer_fila env row = Inr None) \<and>
     (isl (convertir (conv_int env) row Dds_edad) \<or>
      isl (convertir (conv_float env) row Deuda) \<or>
      isl (convertir (conv_int env) row Condicion) \<longrightarrow>
        leer_fila env row = Inl ValueError \<or> leer_fila env row = Inl KeyError)"
proof -
  have c: "convertir (conv_int env) row Ddp_numruc = Inr None"
    using r b by (rule convertir_en_blanco)
  show ?thesis
  proof (cases "convertir (conv_int env) row Dds_edad")
    case (Inl e)
    with n(1) have "e = ValueError \<or> e = KeyError" by (rule convertir_no_nulo)
    with Inl c show ?thesis by (auto simp: leer_fila_def ligar_def)
  next
    case e: (Inr ed)
    show ?thesis
    proof (cases "convertir (conv_float env) row Deuda")
      case (Inl e2)
      with n(2) have "e2 = ValueError \<or> e2 = KeyError" by (rule convertir_no_nulo)
      with Inl c e show ?thesis by (auto simp: leer_fila_def ligar_def)
    next
      case d: (Inr de)
      show ?thesis
      proof (cases "convertir (conv_int env) row Condicion")
        case (Inl e3)
        with n(3) have "e3 = ValueError \<or> e3 = KeyError" by (rule convertir_no_nulo)
        with Inl c e d show ?thesis by (auto simp: leer_fila_def ligar_def)
      next
        case (Inr k)
        with c e d show ?thesis by (simp add: leer_fila_def ligar_def)
      qed
    qed
  qed
qed

lemma paso_carga_contada:
  "leer_fila env row = Inl ValueError \<or> leer_fila env row = Inl KeyError \<Longrightarrow>
   paso_carga env bs st row = Inr (st\<lparr>filas_error := filas_error st + 1\<rparr>)"
  by (auto simp: paso_carga_def)

lemma paso_carga_continue:
  "leer_fila env row = Inr None \<Longrightarrow> paso_carga env bs st row = Inr st"
  by (simp add: paso_carga_def)

lemma leer_fila_ruc_leido:
  assumes "leer_fila env row = Inr (Some t)" and "row Ddp_numruc = Texto s"
  shows "strip s \<noteq> [] \<and> conv_int env s = Some (ddp_numruc t)"
proof (cases "strip s = []")
  case True
  with assms(2) have "convertir (conv_int env) row Ddp_numruc = Inr None"
    by (simp add: convertir_en_blanco)
  with assms(1) show ?thesis
    by (auto simp: leer_fila_def ligar_def split: sum.splits)
next
  case False
  show ?thesis
  proof (cases "conv_int env s")
    case None
    with assms(2) False have "leer_fila env row = Inl ValueError"
      by (simp add: leer_fila_ruc_falla)
    with assms(1) show ?thesis by simp
  next
    case (Some n)
    with assms(2) False have "convertir (conv_int env) row Ddp_numruc = Inr (Some n)"
      by (simp add: convertir_def)
    with assms(1) have "ddp_numruc t = n"
      by (auto simp: leer_fila_def ligar_def split: sum.splits)
    with Some False show ?thesis by simp
  qed
qed

text \<open>
  C6, as the code has it. A row whose RUC cell is not blank and fails \<open>int()\<close> is
  dropped and counted in \<open>filas_error\<close>, and the loop goes on. A row whose RUC cell is
  blank is dropped too, and the loop goes on, when its age, debt and condition cells are
  not \<open>None\<close>; it is counted only when one of these three fails its conversion, and not
  counted otherwise. In both cases no staging record is made of the row: the staging
  table that a load leaves holds the accepted records only, and a record is accepted
  only with a RUC read from a cell that is not blank.
\<close>

theorem fila_sin_ruc_descartada:
  assumes "row Ddp_numruc = Texto s"
  shows
    "(strip s \<noteq> [] \<and> conv_int env s = None \<longrightarrow>
        paso_carga env bs st row = Inr (st\<lparr>filas_error := filas_error st + 1\<rparr>)) \<and>
     (strip s = [] \<and> row Dds_edad \<noteq> Nulo \<and> row Deuda \<noteq> Nulo \<and> row Condicion \<noteq> Nulo \<longrightarrow>
        paso_carga env bs st row =
          Inr (if isl (convertir (conv_int env) row Dds_edad) \<or>
                  isl (convertir (conv_float env) row Deuda) \<or>
                  isl (convertir (conv_int env) row Condicion)
               then st\<lparr>filas_error := filas_error st + 1\<rparr> else st)) \<and>
     (strip s = [] \<or> conv_int env s = None \<longrightarrow> aceptadas env [row] = []) \<and>
     (cargar_csv_a_staging env bs conn csv = Inr out \<longrightarrow>
        staging (actual (conexion_c out)) = aceptadas env csv \<and>
        log_c out = (length (aceptadas env csv), ignoradas env csv))"
proof -
  have a: "paso_carga env bs st row = Inr (st\<lparr>filas_error := filas_error st + 1\<rparr>)"
    if "strip s \<noteq> []" "conv_int env s = None"
    using assms that by (simp add: leer_fila_ruc_falla paso_carga_contada)
  have b: "paso_carga env bs st row =
          Inr (if isl (convertir (conv_int env) row Dds_edad) \<or>
                  isl (convertir (conv_float env) row Deuda) \<or>
                  isl (convertir (conv_int env) row Condicion)
               then st\<lparr>filas_error := filas_error st + 1\<rparr> else st)"
    if "strip s = []" "row Dds_edad \<noteq> Nulo" "row Deuda \<noteq> Nulo" "row Condicion \<noteq> Nulo"
  proof (cases "isl (convertir (conv_int env) row Dds_edad) \<or>
                  isl (convertir (conv_float env) row Deuda) \<or>
                  isl (convertir (conv_int env) row Condicion)")
    case True
    with leer_fila_sin_ruc [OF assms that, of env]
    have "leer_fila env row = Inl ValueError \<or> leer_fila env row = Inl KeyError"
      by blast
    then have "paso_carga env bs st row = Inr (st\<lparr>filas_error := filas_error st + 1\<rparr>)"
      by (rule paso_carga_contada)
    with True show ?thesis by simp
  next
    case False
    with leer_fila_sin_ruc [OF assms that, of env]
    have "leer_fila env row = Inr None"
      by simp
    then have "paso_carga env bs st row = Inr st"
      by (rule paso_carga_continue)
    with False show ?thesis by simp
  qed
  have c: "aceptadas env [row] = []" if "strip s = [] \<or> conv_int env s = None"
  proof (cases "leer_fila env row")
    case (Inl e)
    then show ?thesis by (simp add: aceptadas_def)
  next
    case (Inr res)
    show ?thesis
    proof (cases res)
      case None
      with Inr show ?thesis by (simp add: aceptadas_def)
    next
      case (Some t)
      with Inr assms have "strip s \<noteq> [] \<and> conv_int env s = Some (ddp_numruc t)"
        by (simp add: leer_fila_ruc_leido)
      with that show ?thesis by auto
    qed
  qed
  have d: "staging (actual (conexion_c out)) = aceptadas env csv \<and>
        log_c out = (length (aceptadas env csv), ignoradas env csv)"
    if "cargar_csv_a_staging env bs conn csv = Inr out"
    using cargar_resultado [OF that] by simp
  from a b c d show ?thesis by blast
qed

lemma int_decimal_12a4: "int_decimal (lit ''12a4'') = None"
  by (simp add: int_decimal_def lit_def strip_def isspace_def)

lemma strip_12a4: "strip (lit ''12a4'') \<noteq> []"
  by (simp add: lit_def strip_def isspace_def)

text \<open>
  A row with the RUC cell \<open>12a4\<close>: it is counted and makes no staging record.
\<close>

theorem fila_sin_ruc_descartada_witness:
  "fila_csv_demo ''12a4'' ''34'' Ddp_numruc = Texto (lit ''12a4'') \<and>
   strip (lit ''12a4'') \<noteq> [] \<and> conv_int env_demo (lit ''12a4'') = None \<and>
   paso_carga env_demo BATCH_SIZE (inicio_carga (con_demo [])) (fila_csv_demo ''12a4'' ''34'') =
     Inr ((inicio_carga (con_demo []))\<lparr>filas_error := 1\<rparr>) \<and>
   aceptadas env_demo [fila_csv_demo ''12a4'' ''34''] = []"
proof -
  have r: "fila_csv_demo ''12a4'' ''34'' Ddp_numruc = Texto (lit ''12a4'')"
    by (simp add: fila_csv_demo_def)
  have n: "conv_int env_demo (lit ''12a4'') = None"
    by (simp add: env_demo_def int_decimal_12a4)
  have z: "filas_error (inicio_carga (con_demo [])) = 0"
    by (simp add: inicio_carga_def)
  from fila_sin_ruc_descartada [where row = "fila_csv_demo ''12a4'' ''34''" and s = "lit ''12a4''"
      and env = env_demo and bs = BATCH_SIZE and st = "inicio_carga (con_demo [])", OF r]
    r n strip_12a4 z
  show ?thesis by simp
qed

text \<open>
  C6 as the specification states it fails: a row whose RUC cell is blank, and whose other
  cells convert, is dropped without being counted. The load of an extract of this one
  row ends with no staging record and with 0 rows ignored.
\<close>

theorem fila_en_blanco_no_contada_counterexample:
  "strip (lit ''   '') = [] \<and>
   cargar_csv_a_staging env_demo BATCH_SIZE (con_demo []) [fila_csv_demo ''   '' ''34''] =
     Inr \<lparr>conexion_c = con_demo [], retorno_c = 0, log_c = (0, 0)\<rparr>"
proof -
  have b: "strip (lit ''   '') = []"
    by (simp add: lit_def strip_def isspace_def)
  have e: "convertir (conv_int env_demo) (fila_csv_demo ''   '' ''34'') Dds_edad = Inr (Some 34)"
    by (simp add: convertir_def fila_csv_demo_def env_demo_def int_decimal_def lit_def strip_def
        isspace_def)
  have d: "convertir (conv_float env_demo) (fila_csv_demo ''   '' ''34'') Deuda = Inr None"
    by (simp add: convertir_def fila_csv_demo_def strip_Nil)
  have k: "convertir (conv_int env_demo) (fila_csv_demo ''   '' ''34'') Condicion = Inr None"
    by (simp add: convertir_def fila_csv_demo_def strip_Nil)
  have r: "convertir (conv_int env_demo) (fila_csv_demo ''   '' ''34'') Ddp_numruc = Inr None"
    using b by (simp add: convertir_def fila_csv_demo_def)
  have "leer_fila env_demo (fila_csv_demo ''   '' ''34'') = Inr None"
    by (simp add: leer_fila_def ligar_def r e d k)
  then have "cargar_filas env_demo BATCH_SIZE (inicio_carga (con_demo []))
               [fila_csv_demo ''   '' ''34''] = Inr (inicio_carga (con_demo []))"
    by (simp add: paso_carga_continue)
  moreover have "inicio_carga (con_demo []) =
      \<lparr>con_c = con_demo [], batch_c = [], filas_ok = 0, filas_error = 0\<rparr>"
    by (simp add: inicio_carga_def con_demo_def bd_demo_def commit_def)
  ultimately show ?thesis
    using b by (simp add: cargar_desde_inicio)
qed

section \<open>Properties of the orchestrator\<close>

lemma fold_insert_imagen:
  "fold (\<lambda>x cat. insert (f x) cat) xs S = S \<union> f ` set xs"
  by (induction xs arbitrary: S) auto

lemma poblar_catalogos_bd:
  "poblar_catalogos env conn =
     \<lparr>confirmado = poblar_bd env (actual conn), actual = poblar_bd env (actual conn)\<rparr>"
  by (simp add: poblar_catalogos_def poblar_bd_def Let_def commit_def fold_insert_imagen)

lemma poblar_bd_staging: "staging (poblar_bd env b) = staging b"
  by (simp add: poblar_bd_def)

lemma poblar_bd_idem: "poblar_bd env (poblar_bd env b) = poblar_bd env b"
  by (simp add: poblar_bd_def Un_assoc)

lemma poblar_bd_tabla:
  "poblar_bd env (b\<lparr>contribuyente := t\<rparr>) = (poblar_bd env b)\<lparr>contribuyente := t\<rparr>"
  by (simp add: poblar_bd_def)

lemma mismo_marco_tabla:
  "b\<lparr>contribuyente := []\<rparr> = b0\<lparr>contribuyente := []\<rparr> \<Longrightarrow>
   b\<lparr>contribuyente := x\<rparr> = b0\<lparr>contribuyente := x\<rparr>"
proof -
  assume "b\<lparr>contribuyente := []\<rparr> = b0\<lparr>contribuyente := []\<rparr>"
  then have "(b\<lparr>contribuyente := []\<rparr>)\<lparr>contribuyente := x\<rparr> =
             (b0\<lparr>contribuyente := []\<rparr>)\<lparr>contribuyente := x\<rparr>"
    by simp
  then show ?thesis by simp
qed

lemma uno_a_uno_marco:
  "limpia c \<Longrightarrow> uno_a_uno env c b ins des = (c', i, d) \<Longrightarrow>
   (actual c')\<lparr>contribuyente := []\<rparr> = (actual c)\<lparr>contribuyente := []\<rparr>"
proof (induction b arbitrary: c ins des)
  case Nil
  then show ?case by simp
next
  case (Cons r rs)
  show ?case
  proof (cases "contribuyente_acepta env (actual c) r")
    case True
    with Cons.prems have "uno_a_uno env (commit (insertar c r)) rs (ins + 1) des = (c', i, d)"
      by simp
    with limpia_commit
    have "(actual c')\<lparr>contribuyente := []\<rparr> =
          (actual (commit (insertar c r)))\<lparr>contribuyente := []\<rparr>"
      by (rule Cons.IH)
    then show ?thesis by (simp add: commit_def insertar_def)
  next
    case False
    with Cons.prems have "uno_a_uno env c rs ins (des + 1) = (c', i, d)"
      by (simp add: limpia_rollback)
    with Cons.prems(1) show ?thesis by (rule Cons.IH)
  qed
qed

lemma agregar_especial_marco:
  "limpia c \<Longrightarrow> limpia (agregar_especial env c) \<and>
   (actual (agregar_especial env c))\<lparr>contribuyente := []\<rparr> = (actual c)\<lparr>contribuyente := []\<rparr>"
  by (simp add: agregar_especial_def limpia_def commit_def insertar_def)

lemma migrar_marco:
  "limpia (conexion_m (migrar_staging_a_contribuyente env bs conn)) \<and>
   (actual (conexion_m (migrar_staging_a_contribuyente env bs conn)))\<lparr>contribuyente := []\<rparr> =
     (actual conn)\<lparr>contribuyente := []\<rparr>"
proof -
  let ?rows = "filter filtro (staging (actual conn))"
  obtain c ins des where m: "migrar_lotes env bs (vaciada conn) ?rows = (c, ins, des)"
    by (cases "migrar_lotes env bs (vaciada conn) ?rows")
  obtain c' i d where u:
    "uno_a_uno env (vaciada conn) (map (limpiar_fila env) (primeras ?rows)) 0 0 = (c', i, d)"
    by (cases "uno_a_uno env (vaciada conn) (map (limpiar_fila env) (primeras ?rows)) 0 0")
  from m u have e: "c = c'"
    by (simp add: migrar_lotes_refina [OF limpia_vaciada])
  from uno_a_uno_limpia [OF limpia_vaciada, of env conn "map (limpiar_fila env) (primeras ?rows)" 0 0] u
  have l: "limpia c'" by simp
  from uno_a_uno_marco [OF limpia_vaciada u]
  have f: "(actual c')\<lparr>contribuyente := []\<rparr> = (actual conn)\<lparr>contribuyente := []\<rparr>"
    by (simp add: vaciada_def commit_def)
  from m e l f agregar_especial_marco [OF l, of env] show ?thesis
    by (simp add: migrar_desde_vaciada)
qed

lemma migrar_depende_de_marco:
  assumes "(actual c1)\<lparr>contribuyente := []\<rparr> = (actual c2)\<lparr>contribuyente := []\<rparr>"
  shows "migrar_staging_a_contribuyente env bs c1 = migrar_staging_a_contribuyente env bs c2"
proof -
  from assms have "staging ((actual c1)\<lparr>contribuyente := []\<rparr>) =
                   staging ((actual c2)\<lparr>contribuyente := []\<rparr>)"
    by simp
  then have s: "staging (actual c1) = staging (actual c2)" by simp
  from assms have v: "vaciada c1 = vaciada c2"
    by (simp add: vaciada_def commit_def)
  show ?thesis by (simp add: migrar_desde_vaciada s v)
qed

lemma tabla_propia: "b\<lparr>contribuyente := contribuyente b\<rparr> = b"
  by simp

lemma staging_propio: "b\<lparr>staging := staging b\<rparr> = b"
  by simp

lemma carga_completa_marco:
  "(carga_completa env csv db)\<lparr>contribuyente := []\<rparr> =
     (poblar_bd env (db\<lparr>staging := aceptadas env csv\<rparr>))\<lparr>contribuyente := []\<rparr>"
  using migrar_marco [of env BATCH_SIZE
      "\<lparr>confirmado = poblar_bd env (db\<lparr>staging := aceptadas env csv\<rparr>),
        actual = poblar_bd env (db\<lparr>staging := aceptadas env csv\<rparr>)\<rparr>"]
  by (simp add: carga_completa_def)

lemma carga_completa_idem:
  "carga_completa env csv (carga_completa env csv db) = carga_completa env csv db"
proof -
  let ?A = "aceptadas env csv"
  let ?b2 = "poblar_bd env (db\<lparr>staging := ?A\<rparr>)"
  let ?bd1 = "carga_completa env csv db"
  let ?T = "contribuyente ?bd1"
  have "?bd1\<lparr>contribuyente := ?T\<rparr> = ?b2\<lparr>contribuyente := ?T\<rparr>"
    using carga_completa_marco by (rule mismo_marco_tabla)
  then have b: "?bd1 = ?b2\<lparr>contribuyente := ?T\<rparr>"
    by (simp only: tabla_propia)
  have s: "staging ?b2 = ?A"
    by (simp add: poblar_bd_staging)
  have "(?b2\<lparr>contribuyente := ?T\<rparr>)\<lparr>staging := ?A\<rparr> = ?b2\<lparr>contribuyente := ?T\<rparr>"
    using s by (metis bd.update_convs(1) bd.surjective bd.select_convs(1) bd.update_convs(2))
  then have st: "?bd1\<lparr>staging := ?A\<rparr> = ?bd1"
    using b by simp
  have "poblar_bd env (?b2\<lparr>contribuyente := ?T\<rparr>) = ?b2\<lparr>contribuyente := ?T\<rparr>"
    by (simp add: poblar_bd_tabla poblar_bd_idem)
  then have p: "poblar_bd env ?bd1 = ?bd1"
    using b by simp
  have "carga_completa env csv ?bd1 =
          actual (conexion_m (migrar_staging_a_contribuyente env BATCH_SIZE
            \<lparr>confirmado = ?bd1, actual = ?bd1\<rparr>))"
    by (simp only: carga_completa_def [of env csv ?bd1] st p)
  also have "migrar_staging_a_contribuyente env BATCH_SIZE \<lparr>confirmado = ?bd1, actual = ?bd1\<rparr> =
             migrar_staging_a_contribuyente env BATCH_SIZE \<lparr>confirmado = ?b2, actual = ?b2\<rparr>"
    by (rule migrar_depende_de_marco) (simp add: carga_completa_marco)
  finally show ?thesis by (simp add: carga_completa_def)
qed

lemma main_salta:
  "check_table_has_data k db 100 \<Longrightarrow>
   main env k csv db = Inr \<lparr>bd_final = db, pasos = [EjecutarSpark, MostrarResumen]\<rparr>"
  by (simp add: main_def)

lemma main_carga:
  assumes n: "\<not> check_table_has_data k db 100"
    and c: "cargar_csv_a_staging env BATCH_SIZE \<lparr>confirmado = db, actual = db\<rparr> csv = Inr sc"
  shows "main env k csv db =
     Inr \<lparr>bd_final = carga_completa env csv db,
          pasos = [CargarCSV, PoblarCatalogos, Migrar, EjecutarSpark, MostrarResumen]\<rparr>"
proof -
  from cargar_resultado [OF c] have l: "limpia (conexion_c sc)"
    and a: "actual (conexion_c sc) = db\<lparr>staging := aceptadas env csv\<rparr>"
    by simp_all
  let ?sm = "migrar_staging_a_contribuyente env BATCH_SIZE (poblar_catalogos env (conexion_c sc))"
  have "limpia (conexion_m ?sm)" using migrar_marco by blast
  then have "confirmado (conexion_m ?sm) = actual (conexion_m ?sm)"
    by (simp add: limpia_def)
  with n c a show ?thesis
    by (simp add: main_def Let_def carga_completa_def poblar_catalogos_bd)
qed

lemma main_carga_inversa:
  assumes n: "\<not> check_table_has_data k db 100" and m: "main env k csv db = Inr o1"
  shows "\<exists>sc. cargar_csv_a_staging env BATCH_SIZE \<lparr>confirmado = db, actual = db\<rparr> csv = Inr sc"
  using n m by (auto simp: main_def Let_def split: sum.splits)


lemma length_cien_filas: "length cien_filas = 100"
  by (simp add: cien_filas_def)


text \<open>
  C1, as the code has it. Provided the count query of the second run's check does not
  raise when that of the first run went through (\<open>k1 \<longrightarrow> k2\<close>), a second run of the
  pipeline on the same extract leaves the database of the first run as it is: the same
  staging table, catalogs and canonical table, row by row, and the second run does not
  raise when the first did not. When the check of the second run reads at least 100 rows
  it skips the load stages; otherwise it clears and rebuilds the tables from the same
  extract and arrives at the same rows.
\<close>

theorem pipeline_idempotente:
  assumes m: "main env k1 csv db = Inr o1" and k: "k1 \<longrightarrow> k2"
  shows "\<exists>o2. main env k2 csv (bd_final o1) = Inr o2 \<and> bd_final o2 = bd_final o1 \<and>
           (if check_table_has_data k2 (bd_final o1) 100
            then pasos o2 = [EjecutarSpark, MostrarResumen]
            else pasos o2 = [CargarCSV, PoblarCatalogos, Migrar, EjecutarSpark, MostrarResumen] \<and>
                 bd_final o2 = carga_completa env csv (bd_final o1))"
proof (cases "check_table_has_data k1 db 100")
  case True
  with m have o: "bd_final o1 = db"
    using main_salta [of k1 db env csv] by auto
  from True k have "check_table_has_data k2 db 100"
    by (simp add: check_table_has_data_def split: if_splits)
  with o show ?thesis
    by (simp add: main_salta)
next
  case False
  from main_carga_inversa [OF False m] obtain sc where
    c: "cargar_csv_a_staging env BATCH_SIZE \<lparr>confirmado = db, actual = db\<rparr> csv = Inr sc" ..
  with False m have o: "bd_final o1 = carga_completa env csv db"
    using main_carga [of k1 db env csv sc] by auto
  show ?thesis
  proof (cases "check_table_has_data k2 (bd_final o1) 100")
    case True
    then show ?thesis by (simp add: main_salta)
  next
    case n2: False
    from cargar_exito [OF c] obtain sc2 where
      "cargar_csv_a_staging env BATCH_SIZE
         \<lparr>confirmado = bd_final o1, actual = bd_final o1\<rparr> csv = Inr sc2" ..
    with n2 have "main env k2 csv (bd_final o1) =
       Inr \<lparr>bd_final = carga_completa env csv (bd_final o1),
            pasos = [CargarCSV, PoblarCatalogos, Migrar, EjecutarSpark, MostrarResumen]\<rparr>"
      by (rule main_carga)
    with n2 o show ?thesis
      by (simp add: carga_completa_idem)
  qed
qed

lemma leer_fila_demo:
  "leer_fila env_demo (fila_csv_demo ''20100001'' '''') = Inr (Some (fila_st 20100001 ''5211'' ''B9''))"
proof -
  have r: "convertir (conv_int env_demo) (fila_csv_demo ''20100001'' '''') Ddp_numruc =
           Inr (Some 20100001)"
    by (simp add: convertir_def fila_csv_demo_def env_demo_def int_decimal_def lit_def strip_def
        isspace_def)
  have e: "convertir (conv_int env_demo) (fila_csv_demo ''20100001'' '''') Dds_edad = Inr None"
    by (simp add: convertir_def fila_csv_demo_def lit_def strip_Nil)
  have d: "convertir (conv_float env_demo) (fila_csv_demo ''20100001'' '''') Deuda = Inr None"
    by (simp add: convertir_def fila_csv_demo_def strip_Nil)
  have k: "convertir (conv_int env_demo) (fila_csv_demo ''20100001'' '''') Condicion = Inr None"
    by (simp add: convertir_def fila_csv_demo_def strip_Nil)
  have t: "texto_o_none (fila_csv_demo ''20100001'' '''') Ddp_ciiu = Inr (Some (lit ''5211''))"
    "texto_o_none (fila_csv_demo ''20100001'' '''') Ddp_tpoemp = Inr (Some (lit ''B9''))"
    "texto_o_none (fila_csv_demo ''20100001'' '''') Ddp_tamano = Inr (Some (lit ''M''))"
    "texto_o_none (fila_csv_demo ''20100001'' '''') Ddp_ubigeo = Inr (Some (lit ''CHIMBOTE''))"
    "texto_o_none (fila_csv_demo ''20100001'' '''') Ddp_estado = Inr (Some (lit ''2ACTIVO''))"
    "texto_o_none (fila_csv_demo ''20100001'' '''') Ddp_flag22 = Inr (Some (lit ''HABIDO''))"
    "texto_o_none (fila_csv_demo ''20100001'' '''') Dds_sexo = Inr None"
    by (simp_all add: texto_o_none_def fila_csv_demo_def lit_def strip_def isspace_def)
  show ?thesis
    by (simp add: leer_fila_def ligar_def r e d k t fila_st_def)
qed

lemma cargar_demo:
  "cargar_csv_a_staging env_demo BATCH_SIZE \<lparr>confirmado = bd_demo [], actual = bd_demo []\<rparr>
     [fila_csv_demo ''20100001'' ''''] =
   Inr \<lparr>conexion_c = con_demo [fila_st 20100001 ''5211'' ''B9''], retorno_c = 1, log_c = (1, 0)\<rparr>"
  by (simp add: cargar_csv_a_staging_def paso_carga_def leer_fila_demo BATCH_SIZE_def
      executemany_staging_def commit_def con_demo_def bd_demo_def Let_def)
     (simp add: env_demo_def)

text \<open>
  A first run that loads an extract of one row into an empty canonical table, and a
  second run on the database it leaves.
\<close>

theorem pipeline_idempotente_witness:
  "main env_demo True [fila_csv_demo ''20100001'' ''''] (bd_demo []) =
     Inr \<lparr>bd_final = carga_completa env_demo [fila_csv_demo ''20100001'' ''''] (bd_demo []),
          pasos = [CargarCSV, PoblarCatalogos, Migrar, EjecutarSpark, MostrarResumen]\<rparr> \<and>
   (\<exists>o2. main env_demo True [fila_csv_demo ''20100001'' '''']
            (carga_completa env_demo [fila_csv_demo ''20100001'' ''''] (bd_demo [])) = Inr o2 \<and>
         bd_final o2 = carga_completa env_demo [fila_csv_demo ''20100001'' ''''] (bd_demo []))"
proof -
  have n: "\<not> check_table_has_data True (bd_demo []) 100"
    by (simp add: check_table_has_data_def bd_demo_def)
  from n cargar_demo
  have m: "main env_demo True [fila_csv_demo ''20100001'' ''''] (bd_demo []) =
     Inr \<lparr>bd_final = carga_completa env_demo [fila_csv_demo ''20100001'' ''''] (bd_demo []),
          pasos = [CargarCSV, PoblarCatalogos, Migrar, EjecutarSpark, MostrarResumen]\<rparr>"
    by (rule main_carga)
  have k: "True \<longrightarrow> True" by simp
  from pipeline_idempotente [OF m k] m show ?thesis
    by auto
qed

lemma largo_carga_completa:
  "length (contribuyente (carga_completa env csv db)) \<le> length (aceptadas env csv) + 1"
proof -
  let ?b = "poblar_bd env (db\<lparr>staging := aceptadas env csv\<rparr>)"
  let ?c = "\<lparr>confirmado = ?b, actual = ?b\<rparr>"
  let ?rows = "filter filtro (staging (actual ?c))"
  obtain c ins des where m: "migrar_lotes env BATCH_SIZE (vaciada ?c) ?rows = (c, ins, des)"
    by (cases "migrar_lotes env BATCH_SIZE (vaciada ?c) ?rows")
  from migrar_cuentas(1) [OF m] have "ins \<le> length ?rows" by simp
  moreover have "length ?rows \<le> length (aceptadas env csv)"
    by (simp add: poblar_bd_staging)
  ultimately have i: "ins \<le> length (aceptadas env csv)" by simp
  from migrar_cuentas(4) [OF m] have t: "length (contribuyente (actual c)) = ins" .
  from m have "carga_completa env csv db = actual (agregar_especial env c)"
    by (simp add: carga_completa_def migrar_desde_vaciada)
  with largo_agregar_especial [of env c] t i show ?thesis by auto
qed

lemma aceptadas_demo:
  "aceptadas env_demo [fila_csv_demo ''20100001'' ''''] = [fila_st 20100001 ''5211'' ''B9'']"
  by (simp add: aceptadas_def leer_fila_demo)

lemma main_demo_sin_consulta:
  "main env_demo False [fila_csv_demo ''20100001'' ''''] bd_cien =
     Inr \<lparr>bd_final = carga_completa env_demo [fila_csv_demo ''20100001'' ''''] bd_cien,
          pasos = [CargarCSV, PoblarCatalogos, Migrar, EjecutarSpark, MostrarResumen]\<rparr>"
proof -
  have n: "\<not> check_table_has_data False bd_cien 100"
    by (simp add: check_table_has_data_def)
  from cargar_exito [OF cargar_demo] obtain sc where
    "cargar_csv_a_staging env_demo BATCH_SIZE \<lparr>confirmado = bd_cien, actual = bd_cien\<rparr>
       [fila_csv_demo ''20100001'' ''''] = Inr sc" ..
  with n show ?thesis by (rule main_carga)
qed

lemma largo_bd_cien: "length (contribuyente bd_cien) = 100"
  by (simp add: bd_cien_def length_cien_filas)


text \<open>
  C1 as the specification states it fails. On a canonical table of a hundred rows, a
  first run whose check goes through skips the load and leaves the hundred rows; a second
  run on the same extract whose count query raises rebuilds the table from the extract
  and leaves at most two rows.
\<close>

theorem segunda_consulta_fallida_counterexample:
  "main env_demo True [fila_csv_demo ''20100001'' ''''] bd_cien =
     Inr \<lparr>bd_final = bd_cien, pasos = [EjecutarSpark, MostrarResumen]\<rparr> \<and>
   main env_demo False [fila_csv_demo ''20100001'' ''''] bd_cien =
     Inr \<lparr>bd_final = carga_completa env_demo [fila_csv_demo ''20100001'' ''''] bd_cien,
          pasos = [CargarCSV, PoblarCatalogos, Migrar, EjecutarSpark, MostrarResumen]\<rparr> \<and>
   length (contribuyente bd_cien) = 100 \<and>
   length (contribuyente (carga_completa env_demo [fila_csv_demo ''20100001'' ''''] bd_cien)) \<le> 2 \<and>
   carga_completa env_demo [fila_csv_demo ''20100001'' ''''] bd_cien \<noteq> bd_cien"
proof -
  have c: "check_table_has_data True bd_cien 100"
    by (simp add: check_table_has_data_def largo_bd_cien)
  have a: "main env_demo True [fila_csv_demo ''20100001'' ''''] bd_cien =
     Inr \<lparr>bd_final = bd_cien, pasos = [EjecutarSpark, MostrarResumen]\<rparr>"
    using c by (rule main_salta)
  have l: "length (contribuyente (carga_completa env_demo [fila_csv_demo ''20100001'' ''''] bd_cien)) \<le> 2"
    using largo_carga_completa [of env_demo "[fila_csv_demo ''20100001'' '''']" bd_cien]
    by (simp add: aceptadas_demo)
  have d: "carga_completa env_demo [fila_csv_demo ''20100001'' ''''] bd_cien \<noteq> bd_cien"
  proof
    assume "carga_completa env_demo [fila_csv_demo ''20100001'' ''''] bd_cien = bd_cien"
    with l have "length (contribuyente bd_cien) \<le> 2" by simp
    then show False by (simp add: largo_bd_cien)
  qed
  from a l d show ?thesis
    by (simp add: main_demo_sin_consulta largo_bd_cien)
qed

end
